theory Spec2Isabelle
  imports Main "HOL-Library.Sublist"
begin

section \<open>JavaScript strings\<close>

text \<open>
  The content scripts work on JavaScript strings. A string is modelled as a \<^typ>\<open>string\<close>,
  one \<^typ>\<open>char\<close> per code unit; the code units are those below 256, which covers every
  literal of the three scripts. \<open>isJsSpace\<close> is the class \<^verbatim>\<open>\s\<close> of a regular expression and
  the set removed by \<^verbatim>\<open>String.prototype.trim\<close> (the two coincide in ECMAScript), restricted to
  that range: TAB, LF, VT, FF, CR, SPACE and NBSP.
\<close>

definition isJsSpace :: "char \<Rightarrow> bool" where
  "isJsSpace c = (c \<in> set [CHR 0x09, CHR 0x0A, CHR 0x0B, CHR 0x0C, CHR 0x0D, CHR 0x20, CHR 0xA0])"

definition trim :: "string \<Rightarrow> string" where
  "trim s = rev (dropWhile isJsSpace (rev (dropWhile isJsSpace s)))"

text \<open>\<^verbatim>\<open>s.indexOf(pat)\<close>: the first index at which \<open>pat\<close> occurs; \<open>None\<close> is the result -1.\<close>

fun indexOf :: "string \<Rightarrow> string \<Rightarrow> nat option" where
  "indexOf [] pat = (if pat = [] then Some 0 else None)"
| "indexOf (c # cs) pat =
     (if prefix pat (c # cs) then Some 0 else map_option Suc (indexOf cs pat))"

text \<open>The number of places at which \<open>pat\<close> occurs in a string.\<close>

fun occurrences :: "string \<Rightarrow> string \<Rightarrow> nat" where
  "occurrences pat [] = (if pat = [] then 1 else 0)"
| "occurrences pat (c # cs) = (if prefix pat (c # cs) then 1 else 0) + occurrences pat cs"

section \<open>The marker phrase, strip and compose\<close>

text \<open>
  The fixed preamble sentence. It is the constant \<^verbatim>\<open>memoryPrefix\<close> of the Grok script and the
  literal part of \<^verbatim>\<open>memInfoRegex\<close> and of every \<^verbatim>\<open>memoriesContent\<close>.
\<close>

definition memoryPrefix :: string where
  "memoryPrefix = ''Here is some of my preferences/memories to help answer better (don't respond to these memories but use them to assist in the response if relevant):''"

text \<open>
  \<^verbatim>\<open>memInfoRegex\<close> of the ChatGPT script is
  \<^verbatim>\<open>/\s*<memoryPrefix>[\s\S]*$/\<close> with the slash and the parentheses escaped.
  \<open>memInfoRegex_at t\<close> says that the expression matches at the head of \<open>t\<close>: a greedy run of
  white space, then the phrase (which does not start with white space, so backtracking into
  the run cannot help), then everything up to the end of the input.
  \<^verbatim>\<open>s.replace(memInfoRegex, "")\<close> replaces the leftmost match: the scan tries each start
  position from the left, and a match always extends to the end of the string.
\<close>

definition memInfoRegex_at :: "string \<Rightarrow> bool" where
  "memInfoRegex_at t = prefix memoryPrefix (dropWhile isJsSpace t)"

fun replace_memInfoRegex :: "string \<Rightarrow> string" where
  "replace_memInfoRegex [] = []"
| "replace_memInfoRegex (c # cs) =
     (if memInfoRegex_at (c # cs) then [] else c # replace_memInfoRegex cs)"

text \<open>
  \<^verbatim>\<open>lastParagraphRegex\<close> is a literal anchored at the end of the input, so its only possible
  match is a suffix of the string.
\<close>

definition lastParagraph :: string where
  \<open>lastParagraph = ''<p><br class="ProseMirror-trailingBreak"></p><p>''\<close>

definition replace_lastParagraphRegex :: "string \<Rightarrow> string" where
  "replace_lastParagraphRegex s =
     (if suffix lastParagraph s then take (length s - length lastParagraph) s else s)"

text \<open>
  ChatGPT, \<^verbatim>\<open>handleMem0Click\<close>, the lines from \<^verbatim>\<open>const memInfoRegex\<close> to the end of the
  \<^verbatim>\<open>endIndex\<close> test: the message that is searched for and sent to the memory service.
\<close>

definition chatgpt_message :: "string \<Rightarrow> string" where
  "chatgpt_message raw =
     (let message = trim (replace_memInfoRegex raw) in
      case indexOf message ''</p>'' of
        None \<Rightarrow> message
      | Some endIndex \<Rightarrow> take (endIndex + 4) message)"

text \<open>ChatGPT, the content that is kept when memories were found (\<^verbatim>\<open>currentContent\<close>).\<close>

definition chatgpt_currentContent :: "string \<Rightarrow> string" where
  "chatgpt_currentContent content =
     trim (replace_lastParagraphRegex (trim (replace_memInfoRegex content)))"

definition mem0_wrapper :: string where
  \<open>mem0_wrapper = ''<div id="mem0-wrapper" style="background-color: rgb(220, 252, 231); padding: 8px; border-radius: 4px; margin-top: 8px; margin-bottom: 8px;">''\<close>

text \<open>ChatGPT, \<^verbatim>\<open>memoriesContent\<close>: the \<^verbatim>\<open>forEach\<close> appends one \<^verbatim>\<open><div>\<close> per memory.\<close>

definition chatgpt_memoriesContent :: "string list \<Rightarrow> string" where
  "chatgpt_memoriesContent memories =
     foldl (\<lambda>memoriesContent mem. memoriesContent @ ''<div>- '' @ mem @ ''</div>'')
       (mem0_wrapper @ ''<strong>'' @ memoryPrefix @ ''</strong>'') memories
     @ ''</div>''"

text \<open>
  Perplexity and Grok, \<^verbatim>\<open>memoriesContent\<close>: the \<^verbatim>\<open>forEach\<close> with its index; a line feed
  follows every bullet but the last.
\<close>

fun memoriesContent_forEach :: "string list \<Rightarrow> nat \<Rightarrow> nat \<Rightarrow> string \<Rightarrow> string" where
  "memoriesContent_forEach [] index len memoriesContent = memoriesContent"
| "memoriesContent_forEach (mem # rest) index len memoriesContent =
     memoriesContent_forEach rest (index + 1) len
       (memoriesContent @ ''- '' @ mem @ (if index < len - 1 then ''\<newline>'' else ''''))"

definition plain_memoriesContent :: "string list \<Rightarrow> string" where
  "plain_memoriesContent memories =
     memoriesContent_forEach memories 0 (length memories)
       (''\<newline>\<newline>'' @ memoryPrefix @ ''\<newline>'')"

text \<open>
  Grok, \<^verbatim>\<open>handleMem0Processing\<close>: the new value of \<^verbatim>\<open>lastInputValue\<close> after the
  \<^verbatim>\<open>prefixIndex\<close> test.
\<close>

definition grok_lastInputValue :: "string \<Rightarrow> string" where
  "grok_lastInputValue lastInputValue =
     (case indexOf lastInputValue memoryPrefix of
        None \<Rightarrow> lastInputValue
      | Some prefixIndex \<Rightarrow> trim (take prefixIndex lastInputValue))"

text \<open>
  Grok computes a second \<^verbatim>\<open>currentContent\<close> with a \<^verbatim>\<open>memInfoRegex\<close> whose parentheses are
  not escaped; the value is never used (the write takes \<^verbatim>\<open>capturedText\<close>), so it has no
  counterpart here.
\<close>

text \<open>\<open>no_memInfo s\<close>: \<^verbatim>\<open>memInfoRegex\<close> matches nowhere in \<open>s\<close>.\<close>

definition no_memInfo :: "string \<Rightarrow> bool" where
  "no_memInfo s = (\<forall>k. \<not> memInfoRegex_at (drop k s))"

section \<open>Requests and responses of the memory service\<close>

datatype role = User | Assistant

record conversation_message =
  role :: role
  content :: string

text \<open>
  The body of a search request (the constant fields \<^verbatim>\<open>rerank\<close>, \<^verbatim>\<open>threshold\<close> and
  \<^verbatim>\<open>filter_memories\<close> of Perplexity and Grok are left out) with its
  \<^verbatim>\<open>Authorization\<close> header, and the body of an add request.
\<close>

record search_request =
  query :: string
  user_id :: string
  limit :: nat
  authorization :: "string option"

record add_request =
  add_messages :: "conversation_message list"
  add_user_id :: string
  infer :: "bool option"
  provider :: string
  add_authorization :: "string option"

text \<open>
  The parsed body of a search response: an object with the optional members
  \<^verbatim>\<open>data.results\<close> and \<^verbatim>\<open>results\<close>, or an array. Each record is reduced to its
  \<^verbatim>\<open>memory\<close> string, as \<^verbatim>\<open>memoriesArray.map((item) => item.memory)\<close> does.
  A settled \<^verbatim>\<open>fetch\<close> is a network error or a response with its status and its body as
  \<^verbatim>\<open>response.json()\<close> gives it (\<open>None\<close> when that rejects).
\<close>

datatype response_data =
    JsonObject (data_results: "string list option") (results: "string list option")
  | JsonArray "string list"

datatype fetch_result = NetworkError | Response nat "response_data option"

definition ok :: "nat \<Rightarrow> bool" where
  "ok status = (200 \<le> status \<and> status \<le> 299)"

datatype 'p outcome = Returned | Threw | Awaiting 'p






section \<open>ChatGPT content script\<close>

text \<open>
  The page as the script sees it. \<open>inputElement\<close> is what
  \<^verbatim>\<open>querySelector('div[contenteditable="true"]') || querySelector("textarea")\<close> finds; a
  \<^verbatim>\<open>div\<close> has its \<^verbatim>\<open>innerHTML\<close> and \<^verbatim>\<open>textContent\<close> (its \<^verbatim>\<open>value\<close> is undefined), a
  \<^verbatim>\<open>textarea\<close> its \<^verbatim>\<open>textContent\<close> and \<^verbatim>\<open>value\<close>. \<open>mem0Button\<close> holds the loading state
  of \<^verbatim>\<open>#mem0-button\<close>. A child of the message container holds a user message, an assistant
  message or neither; the text is \<open>None\<close> when the node that carries it is missing
  (\<^verbatim>\<open>querySelector\<close> gives null and the read throws).
  The effects are recorded in the world: the search and add requests sent, the clicks on
  the send button (set by timer or immediate), the popups shown, \<^verbatim>\<open>console.error\<close>, and the
  \<^verbatim>\<open>input\<close> events dispatched.
\<close>

datatype input_element =
    Div (innerHTML: string) (textContent: string)
  | Textarea (textContent: string) (el_value: string)

datatype turn_element = UserTurn "string option" | AssistantTurn "string option" | OtherElement

record chatgpt_world =
  inputElement :: "input_element option"
  sendButton :: bool
  mem0Button :: "bool option"
  messageContainer :: "turn_element list option"
  isProcessingMem0 :: bool
  searchCalls :: "search_request list"
  addCalls :: "add_request list"
  sendClicks :: nat
  popups :: "string list"
  consoleErrors :: "string list"
  inputEvents :: nat

text \<open>What \<^verbatim>\<open>handleMem0Click\<close> holds while it awaits the search.\<close>

record chatgpt_pending =
  p_popup :: bool
  p_clickSendButton :: bool
  p_message :: string
  p_messages :: "conversation_message list"

definition getMemoryEnabledState :: bool where
  "getMemoryEnabledState = True"

definition setButtonLoadingState :: "bool \<Rightarrow> chatgpt_world \<Rightarrow> chatgpt_world" where
  "setButtonLoadingState isLoading w =
     (case mem0Button w of None \<Rightarrow> w | Some _ \<Rightarrow> w\<lparr>mem0Button := Some isLoading\<rparr>)"

definition showPopup :: "bool \<Rightarrow> string \<Rightarrow> chatgpt_world \<Rightarrow> chatgpt_world" where
  "showPopup popup message w = (if popup then w\<lparr>popups := popups w @ [message]\<rparr> else w)"

definition console_error :: "string \<Rightarrow> chatgpt_world \<Rightarrow> chatgpt_world" where
  "console_error message w = w\<lparr>consoleErrors := consoleErrors w @ [message]\<rparr>"

text \<open>
  \<^verbatim>\<open>inputElement ? inputElement.textContent || inputElement.value : null\<close>; \<open>None\<close> is null
  or undefined.
\<close>

definition getInputValue :: "chatgpt_world \<Rightarrow> string option" where
  "getInputValue w =
     (case inputElement w of
        None \<Rightarrow> None
      | Some (Div h t) \<Rightarrow> (if t \<noteq> [] then Some t else None)
      | Some (Textarea t v) \<Rightarrow> (if t \<noteq> [] then Some t else Some v))"

text \<open>
  \<^verbatim>\<open>getLastMessages(count)\<close>: the children are visited last to first, until \<open>count\<close>
  messages are collected; each message is put in front (\<^verbatim>\<open>unshift\<close>).
\<close>

fun getLastMessages_loop ::
  "nat \<Rightarrow> turn_element list \<Rightarrow> conversation_message list \<Rightarrow> conversation_message list option" where
  "getLastMessages_loop count [] messages = Some messages"
| "getLastMessages_loop count (element # rest) messages =
     (if length messages \<ge> count then Some messages
      else case element of
        UserTurn None \<Rightarrow> None
      | UserTurn (Some t) \<Rightarrow>
          getLastMessages_loop count rest (\<lparr>role = User, content = trim t\<rparr> # messages)
      | AssistantTurn None \<Rightarrow> None
      | AssistantTurn (Some t) \<Rightarrow>
          getLastMessages_loop count rest (\<lparr>role = Assistant, content = trim t\<rparr> # messages)
      | OtherElement \<Rightarrow> getLastMessages_loop count rest messages)"

definition getLastMessages :: "nat \<Rightarrow> chatgpt_world \<Rightarrow> conversation_message list option" where
  "getLastMessages count w =
     (case messageContainer w of
        None \<Rightarrow> Some []
      | Some children \<Rightarrow> getLastMessages_loop count (rev children) [])"

text \<open>The send button is looked up and clicked, at once or by the 100 ms timer.\<close>

definition clickSend :: "chatgpt_world \<Rightarrow> chatgpt_world" where
  "clickSend w =
     (if sendButton w then w\<lparr>sendClicks := sendClicks w + 1\<rparr>
      else console_error ''Send button not found'' w)"

text \<open>The \<^verbatim>\<open>catch\<close> block of \<^verbatim>\<open>handleMem0Click\<close>, followed by its \<^verbatim>\<open>finally\<close>.\<close>

definition handleMem0Click_catch :: "bool \<Rightarrow> chatgpt_world \<Rightarrow> chatgpt_world" where
  "handleMem0Click_catch popup w =
     (setButtonLoadingState False
        (showPopup popup ''Error connecting to local Mem0 server''
           (console_error ''Mem0 Local Error:'' w)))
     \<lparr>isProcessingMem0 := False\<rparr>"

text \<open>
  \<^verbatim>\<open>handleMem0Click(popup, clickSendButton)\<close> up to the \<^verbatim>\<open>await fetch\<close> of the search.
  \<open>popup\<close> says whether a popup element was passed.
\<close>

definition handleMem0Click_begin ::
  "bool \<Rightarrow> bool \<Rightarrow> chatgpt_world \<Rightarrow> chatgpt_world \<times> chatgpt_pending outcome" where
  "handleMem0Click_begin popup clickSendButton w =
     (if \<not> getMemoryEnabledState then
        ((if clickSendButton then clickSend w else w), Returned)
      else
        let w1 = setButtonLoadingState True w;
            message = getInputValue w1
        in if message = None \<or> message = Some [] then
             (setButtonLoadingState False
                (showPopup popup ''No input message found''
                   (console_error ''No input message found'' w1)), Returned)
           else
             let message = chatgpt_message (the message) in
             if isProcessingMem0 w1 then (w1, Returned)
             else
               let w2 = w1\<lparr>isProcessingMem0 := True\<rparr> in
               case getLastMessages 2 w2 of
                 None \<Rightarrow> (handleMem0Click_catch popup w2, Threw)
               | Some messages \<Rightarrow>
                   (w2\<lparr>searchCalls := searchCalls w2 @
                        [\<lparr>query = message, user_id = ''chrome-extension-user'', limit = 20,
                          authorization = None\<rparr>]\<rparr>,
                    Awaiting \<lparr>p_popup = popup, p_clickSendButton = clickSendButton,
                      p_message = message,
                      p_messages = messages @ [\<lparr>role = User, content = message\<rparr>]\<rparr>))"

text \<open>
  \<^verbatim>\<open>responseData.data?.results || responseData.results || []\<close>, mapped to the memory
  strings. An array, also an empty one, is truthy.
\<close>

definition chatgpt_memories :: "response_data \<Rightarrow> string list" where
  "chatgpt_memories responseData =
     (case responseData of
        JsonObject (Some xs) _ \<Rightarrow> xs
      | JsonObject None (Some ys) \<Rightarrow> ys
      | JsonObject None None \<Rightarrow> []
      | JsonArray _ \<Rightarrow> [])"

text \<open>
  The two writes of the input. \<open>html_text\<close> is the text content the browser gives an
  element whose \<^verbatim>\<open>innerHTML\<close> was set; it is a parameter, the HTML parser being the
  browser's. What is read back as \<^verbatim>\<open>innerHTML\<close> is taken to be what was written.
\<close>

definition injectMemories :: "(string \<Rightarrow> string) \<Rightarrow> input_element \<Rightarrow> string list \<Rightarrow> input_element" where
  "injectMemories html_text el memories =
     (case el of
        Div h t \<Rightarrow>
          (let html = chatgpt_currentContent h @ ''<div><br></div>'' @ chatgpt_memoriesContent memories
           in Div html (html_text html))
      | Textarea t v \<Rightarrow>
          Textarea t (chatgpt_currentContent v @ ''\<newline>'' @ chatgpt_memoriesContent memories))"

definition restoreMessage :: "(string \<Rightarrow> string) \<Rightarrow> input_element \<Rightarrow> string \<Rightarrow> input_element" where
  "restoreMessage html_text el message =
     (case el of
        Div h t \<Rightarrow> Div message (html_text message)
      | Textarea t v \<Rightarrow> Textarea t message)"

text \<open>
  \<^verbatim>\<open>handleMem0Click\<close> from the point where the search settles. The element found before
  the search is taken to be the one the page still shows. \<^verbatim>\<open>addMemoryWithContext\<close> sends
  its request before its first \<^verbatim>\<open>await\<close>, so the add request is recorded here.
\<close>

definition handleMem0Click_resume ::
  "(string \<Rightarrow> string) \<Rightarrow> chatgpt_pending \<Rightarrow> fetch_result \<Rightarrow> chatgpt_world
     \<Rightarrow> chatgpt_world \<times> chatgpt_pending outcome" where
  "handleMem0Click_resume html_text p searchResponse w =
     (case searchResponse of
        NetworkError \<Rightarrow> (handleMem0Click_catch (p_popup p) w, Threw)
      | Response status body \<Rightarrow>
          if \<not> ok status then (handleMem0Click_catch (p_popup p) w, Threw)
          else case body of
            None \<Rightarrow> (handleMem0Click_catch (p_popup p) w, Threw)
          | Some responseData \<Rightarrow>
              let w1 =
                    (case inputElement w of
                       Some el \<Rightarrow>
                         (let memories = chatgpt_memories responseData in
                          if memories \<noteq> [] then
                            w\<lparr>inputElement := Some (injectMemories html_text el memories),
                              inputEvents := inputEvents w + 1\<rparr>
                          else
                            showPopup (p_popup p) ''No memories found''
                              (w\<lparr>inputElement := Some (restoreMessage html_text el (p_message p)),
                                 inputEvents := inputEvents w + 1\<rparr>))
                     | None \<Rightarrow> showPopup (p_popup p) ''No input field found to update'' w);
                  w2 = setButtonLoadingState False w1;
                  w3 = (if p_clickSendButton p then clickSend w2 else w2);
                  w4 = w3\<lparr>addCalls := addCalls w3 @
                         [\<lparr>add_messages = p_messages p, add_user_id = ''chrome-extension-user'',
                           infer = Some True, provider = ''ChatGPT'', add_authorization = None\<rparr>]\<rparr>
              in (w4\<lparr>isProcessingMem0 := False\<rparr>, Returned))"






text \<open>
  The page's events. Enter on the input element reaches the listener that
  \<^verbatim>\<open>addEnterKeyInterception\<close> attached; Ctrl+M and a click on the Mem0 button call
  \<^verbatim>\<open>handleMem0Click\<close> as well. \<open>SearchSettled i r\<close> settles the \<open>i\<close>-th pending search
  with \<open>r\<close>; \<open>HostInput\<close> is the page or the user changing the input element. Only the Enter
  listener catches the error \<^verbatim>\<open>handleMem0Click\<close> throws again, and logs it.
\<close>

datatype chatgpt_trigger = ByEnter | ByCtrlM | ByButton

datatype chatgpt_event =
    EnterKey bool
  | CtrlM
  | Mem0ButtonClick
  | SearchSettled nat fetch_result
  | HostInput "input_element option"

record chatgpt_system =
  world :: chatgpt_world
  pending :: "(chatgpt_trigger \<times> chatgpt_pending) list"

definition caller_catch :: "chatgpt_trigger \<Rightarrow> chatgpt_pending outcome \<Rightarrow> chatgpt_world \<Rightarrow> chatgpt_world" where
  "caller_catch t out w =
     (case out of
        Threw \<Rightarrow> (if t = ByEnter then console_error ''Error in Mem0 processing:'' w else w)
      | _ \<Rightarrow> w)"

definition chatgpt_capture :: "chatgpt_trigger \<Rightarrow> chatgpt_system \<Rightarrow> chatgpt_system" where
  "chatgpt_capture t s =
     (let (w, out) = handleMem0Click_begin (t = ByButton) (t \<noteq> ByButton) (world s) in
      \<lparr>world = caller_catch t out w,
       pending = (case out of Awaiting p \<Rightarrow> pending s @ [(t, p)] | _ \<Rightarrow> pending s)\<rparr>)"

fun chatgpt_step :: "(string \<Rightarrow> string) \<Rightarrow> chatgpt_system \<Rightarrow> chatgpt_event \<Rightarrow> chatgpt_system" where
  "chatgpt_step html_text s (EnterKey shiftKey) =
     (if inputElement (world s) = None \<or> shiftKey then s
      else if getMemoryEnabledState then chatgpt_capture ByEnter s
      else s\<lparr>world := clickSend (world s)\<rparr>)"
| "chatgpt_step html_text s CtrlM = chatgpt_capture ByCtrlM s"
| "chatgpt_step html_text s Mem0ButtonClick =
     (if mem0Button (world s) = None then s else chatgpt_capture ByButton s)"
| "chatgpt_step html_text s (SearchSettled i r) =
     (if i < length (pending s) then
        (let (t, p) = pending s ! i;
             (w, out) = handleMem0Click_resume html_text p r (world s)
         in \<lparr>world = caller_catch t out w, pending = take i (pending s) @ drop (Suc i) (pending s)\<rparr>)
      else s)"
| "chatgpt_step html_text s (HostInput el) = s\<lparr>world := (world s)\<lparr>inputElement := el\<rparr>\<rparr>"

definition chatgpt_run :: "(string \<Rightarrow> string) \<Rightarrow> chatgpt_system \<Rightarrow> chatgpt_event list \<Rightarrow> chatgpt_system" where
  "chatgpt_run html_text s evs = foldl (chatgpt_step html_text) s evs"

fun settles :: "chatgpt_event \<Rightarrow> bool" where
  "settles (SearchSettled i r) = True"
| "settles _ = False"

section \<open>Perplexity and Grok content scripts\<close>

text \<open>
  The two scripts share their globals and everything up to the search request. The page:
  the textarea \<^verbatim>\<open>getTextarea()\<close> finds, with its value and whether it is
  \<^verbatim>\<open>document.activeElement\<close>; whether the submit button is there; the items of
  \<^verbatim>\<open>chrome.storage.sync\<close> (\<open>memory_enabled\<close> is \<open>Some False\<close> exactly when the stored value
  is \<^verbatim>\<open>false\<close>). \<open>lastInputValue\<close> is the script's global; \<^verbatim>\<open>isEnterKeyPressed\<close> is
  written and never read, and is left out, as is the \<^verbatim>\<open>MutationObserver\<close> on the textarea
  (a change of the value is not a mutation of its children). \<open>clickTimers\<close> counts the timers that
  \<^verbatim>\<open>clickSendButtonWithDelay\<close> has set and that have not fired, \<open>page_sendClicks\<close> the clicks
  on the submit button. The storage callback is taken to run before any other
  event of the page.
\<close>

record textarea_element =
  ta_value :: string
  focused :: bool

record storage_items =
  apiKey :: "string option"
  userId :: "string option"
  access_token :: "string option"
  memory_enabled :: "bool option"

record page_world =
  textarea :: "textarea_element option"
  submitButton :: bool
  storage :: storage_items
  lastInputValue :: string
  page_searchCalls :: "search_request list"
  page_addCalls :: "add_request list"
  clickTimers :: nat
  page_sendClicks :: nat
  page_consoleErrors :: "string list"
  page_inputEvents :: nat

record keyboard_event =
  key :: string
  shiftKey :: bool
  isComposing :: bool

record page_pending =
  q_capturedText :: string
  q_clickSendButton :: bool
  q_message :: string
  q_userId :: string
  q_authHeader :: string

definition truthy :: "string option \<Rightarrow> bool" where
  "truthy v = (case v of None \<Rightarrow> False | Some x \<Rightarrow> x \<noteq> [])"

definition page_console_error :: "string \<Rightarrow> page_world \<Rightarrow> page_world" where
  "page_console_error message w = w\<lparr>page_consoleErrors := page_consoleErrors w @ [message]\<rparr>"

definition clickSendButtonWithDelay :: "page_world \<Rightarrow> page_world" where
  "clickSendButtonWithDelay w = w\<lparr>clickTimers := clickTimers w + 1\<rparr>"

text \<open>
  \<^verbatim>\<open>setInputValue(inputElement, value)\<close> for the element \<^verbatim>\<open>getTextarea()\<close> just gave; the
  \<^verbatim>\<open>input\<close> event it dispatches is counted.
\<close>

definition setInputValue :: "string \<Rightarrow> page_world \<Rightarrow> page_world" where
  "setInputValue v w =
     (case textarea w of
        None \<Rightarrow> w
      | Some ta \<Rightarrow> w\<lparr>textarea := Some (ta\<lparr>ta_value := v\<rparr>), lastInputValue := v,
                      page_inputEvents := page_inputEvents w + 1\<rparr>)"

text \<open>
  \<^verbatim>\<open>handleMem0Processing(capturedText, clickSendButton)\<close> up to the \<^verbatim>\<open>await fetch\<close> of the
  search; the same in both scripts. With an empty \<open>capturedText\<close> and no textarea the read
  of \<^verbatim>\<open>textarea.value\<close> throws, outside the \<^verbatim>\<open>try\<close>.
\<close>

definition handleMem0Processing_begin ::
  "string \<Rightarrow> bool \<Rightarrow> page_world \<Rightarrow> page_world \<times> page_pending outcome" where
  "handleMem0Processing_begin capturedText clickSendButton w =
     (if capturedText = [] \<and> textarea w = None then (w, Threw)
      else
        let message = (if capturedText \<noteq> [] then capturedText
                       else trim (ta_value (the (textarea w))));
            data = storage w
        in if message = [] then (page_console_error ''No input message found'' w, Returned)
           else if \<not> truthy (apiKey data) \<and> \<not> truthy (access_token data) then
             (page_console_error ''No API Key or Access Token found'' w, Returned)
           else if memory_enabled data = Some False then
             ((if clickSendButton then clickSendButtonWithDelay w else w), Returned)
           else
             let userId = (if truthy (userId data) then the (userId data)
                           else ''chrome-extension-user'');
                 authHeader = (if truthy (access_token data)
                               then ''Bearer '' @ the (access_token data)
                               else ''Token '' @ the (apiKey data))
             in (w\<lparr>page_searchCalls := page_searchCalls w @
                     [\<lparr>query = message, user_id = userId, limit = 10,
                       authorization = Some authHeader\<rparr>]\<rparr>,
                 Awaiting \<lparr>q_capturedText = capturedText, q_clickSendButton = clickSendButton,
                   q_message = message, q_userId = userId, q_authHeader = authHeader\<rparr>))"

text \<open>
  \<^verbatim>\<open>handleEnterKey(event)\<close>, the capturing \<^verbatim>\<open>keydown\<close> listener of the document. The
  second component says whether \<^verbatim>\<open>preventDefault\<close> and \<^verbatim>\<open>stopPropagation\<close> were called.
\<close>

definition handleEnterKey ::
  "keyboard_event \<Rightarrow> page_world \<Rightarrow> page_world \<times> bool \<times> page_pending outcome" where
  "handleEnterKey event w =
     (if key event = ''Enter'' \<and> \<not> shiftKey event \<and> \<not> isComposing event then
        (case textarea w of
           None \<Rightarrow> (w, False, Returned)
         | Some ta \<Rightarrow>
             if focused ta then
               (let capturedText = trim (ta_value ta) in
                if capturedText \<noteq> [] then
                  (let (w', out) = handleMem0Processing_begin capturedText True w
                   in (w', True, out))
                else (w, False, Returned))
             else (w, False, Returned))
      else (w, False, Returned))"

text \<open>
  \<^verbatim>\<open>responseData.data?.results || responseData.results || responseData\<close>, mapped to the
  memory strings; \<open>None\<close> when the value has no \<^verbatim>\<open>map\<close> (an object with neither member) and
  the call throws.
\<close>

definition page_memories :: "response_data \<Rightarrow> string list option" where
  "page_memories responseData =
     (case responseData of
        JsonObject (Some xs) _ \<Rightarrow> Some xs
      | JsonObject None (Some ys) \<Rightarrow> Some ys
      | JsonObject None None \<Rightarrow> None
      | JsonArray zs \<Rightarrow> Some zs)"

definition page_add :: "string \<Rightarrow> page_pending \<Rightarrow> page_world \<Rightarrow> page_world" where
  "page_add providerName p w =
     w\<lparr>page_addCalls := page_addCalls w @
        [\<lparr>add_messages = [\<lparr>role = User, content = q_message p\<rparr>], add_user_id = q_userId p,
          infer = Some True, provider = providerName,
          add_authorization = Some (q_authHeader p)\<rparr>]\<rparr>"

text \<open>Perplexity: the \<^verbatim>\<open>catch\<close> block, and the function from the point where the search settles.\<close>

definition perplexity_catch :: "page_pending \<Rightarrow> page_world \<Rightarrow> page_world" where
  "perplexity_catch p w =
     (let w1 = page_console_error ''Error:'' w in
      if textarea w1 \<noteq> None \<and> q_message p \<noteq> [] then setInputValue (q_message p) w1 else w1)"

definition perplexity_resume :: "page_pending \<Rightarrow> fetch_result \<Rightarrow> page_world \<Rightarrow> page_world" where
  "perplexity_resume p searchResponse w =
     (case searchResponse of
        NetworkError \<Rightarrow> perplexity_catch p w
      | Response status body \<Rightarrow>
          if \<not> ok status then perplexity_catch p w
          else case body of
            None \<Rightarrow> perplexity_catch p w
          | Some responseData \<Rightarrow>
              (case textarea w of
                 Some ta \<Rightarrow>
                   (case page_memories responseData of
                      None \<Rightarrow> perplexity_catch p w
                    | Some memories \<Rightarrow>
                        let w1 = (if memories \<noteq> []
                                  then setInputValue (q_message p @ plain_memoriesContent memories) w
                                  else setInputValue (q_message p) w);
                            w2 = (if q_clickSendButton p then clickSendButtonWithDelay w1 else w1)
                        in page_add ''Perplexity'' p w2)
               | None \<Rightarrow> page_add ''Perplexity'' p (page_console_error ''Input element not found'' w)))"

text \<open>Grok: the same points. Its \<^verbatim>\<open>catch\<close> block only logs.\<close>

definition grok_catch :: "page_world \<Rightarrow> page_world" where
  "grok_catch w = page_console_error ''Error:'' w"

definition grok_resume :: "page_pending \<Rightarrow> fetch_result \<Rightarrow> page_world \<Rightarrow> page_world" where
  "grok_resume p searchResponse w =
     (case searchResponse of
        NetworkError \<Rightarrow> grok_catch w
      | Response status body \<Rightarrow>
          if \<not> ok status then grok_catch w
          else case body of
            None \<Rightarrow> grok_catch w
          | Some responseData \<Rightarrow>
              (case textarea w of
                 Some ta \<Rightarrow>
                   (let w0 = w\<lparr>lastInputValue := grok_lastInputValue (lastInputValue w)\<rparr> in
                    case page_memories responseData of
                      None \<Rightarrow> grok_catch w0
                    | Some memories \<Rightarrow>
                        let w1 = (if memories \<noteq> []
                                  then setInputValue (q_capturedText p @ plain_memoriesContent memories) w0
                                  else w0);
                            w2 = (if q_clickSendButton p then clickSendButtonWithDelay w1 else w1)
                        in page_add ''Grok'' p w2)
               | None \<Rightarrow> page_add ''Grok'' p (page_console_error ''Input element not found'' w)))"


text \<open>
  The events of a Perplexity or Grok page: a \<^verbatim>\<open>keydown\<close>, the \<open>i\<close>-th pending search
  settling, a timer of \<^verbatim>\<open>clickSendButtonWithDelay\<close> firing, and the user changing the text
  (the \<^verbatim>\<open>input\<close> listener then copies the value to \<^verbatim>\<open>lastInputValue\<close>). The two scripts
  differ in what happens when the search settles, which is the parameter \<open>resume\<close>.
\<close>

datatype page_event =
    KeyDown keyboard_event
  | PageSearchSettled nat fetch_result
  | TimerFires
  | UserInput string

record page_system =
  page :: page_world
  page_pendings :: "page_pending list"

definition clickTimer_fires :: "page_world \<Rightarrow> page_world" where
  "clickTimer_fires w =
     (if clickTimers w = 0 then w
      else if submitButton w then
        w\<lparr>clickTimers := clickTimers w - 1, page_sendClicks := page_sendClicks w + 1\<rparr>
      else page_console_error ''Send button not found'' (w\<lparr>clickTimers := clickTimers w - 1\<rparr>))"

text \<open>
  The \<^verbatim>\<open>keydown\<close> listener that \<^verbatim>\<open>setupInputObserver\<close> puts on the textarea; it runs when
  the textarea has the focus and \<^verbatim>\<open>handleEnterKey\<close> did not stop the event.
\<close>

definition textarea_keydown :: "keyboard_event \<Rightarrow> page_world \<Rightarrow> page_world" where
  "textarea_keydown event w =
     (case textarea w of
        None \<Rightarrow> w
      | Some ta \<Rightarrow>
          if focused ta \<and> key event = ''Enter'' \<and> \<not> shiftKey event
          then w\<lparr>lastInputValue := ta_value ta\<rparr> else w)"

fun page_step ::
  "(page_pending \<Rightarrow> fetch_result \<Rightarrow> page_world \<Rightarrow> page_world) \<Rightarrow> page_system \<Rightarrow> page_event
     \<Rightarrow> page_system" where
  "page_step resume s (KeyDown event) =
     (let (w, prevented, out) = handleEnterKey event (page s) in
      \<lparr>page = (if prevented then w else textarea_keydown event w),
       page_pendings = (case out of Awaiting p \<Rightarrow> page_pendings s @ [p] | _ \<Rightarrow> page_pendings s)\<rparr>)"
| "page_step resume s (PageSearchSettled i r) =
     (if i < length (page_pendings s) then
        \<lparr>page = resume (page_pendings s ! i) r (page s),
         page_pendings = take i (page_pendings s) @ drop (Suc i) (page_pendings s)\<rparr>
      else s)"
| "page_step resume s TimerFires = s\<lparr>page := clickTimer_fires (page s)\<rparr>"
| "page_step resume s (UserInput v) =
     (case textarea (page s) of
        None \<Rightarrow> s
      | Some ta \<Rightarrow> s\<lparr>page := (page s)\<lparr>textarea := Some (ta\<lparr>ta_value := v\<rparr>), lastInputValue := v\<rparr>\<rparr>)"

definition perplexity_run :: "page_system \<Rightarrow> page_event list \<Rightarrow> page_system" where
  "perplexity_run s evs = foldl (page_step perplexity_resume) s evs"

definition grok_run :: "page_system \<Rightarrow> page_event list \<Rightarrow> page_system" where
  "grok_run s evs = foldl (page_step grok_resume) s evs"

section \<open>Failed searches and example pages\<close>

text \<open>
  A search that fails: \<^verbatim>\<open>fetch\<close> rejects, the status is not 2xx, or the body does not parse.
\<close>

definition search_failed :: "fetch_result \<Rightarrow> bool" where
  "search_failed r =
     (case r of NetworkError \<Rightarrow> True | Response status body \<Rightarrow> \<not> ok status \<or> body = None)"

text \<open>
  Pages used as concrete inputs: an idle ChatGPT page with a given input element, an empty
  conversation and the send button and Mem0 button in place; an idle Perplexity or Grok
  page with the focused textarea holding \<open>v\<close>, the stored API key \<open>k\<close> and with or without
  the submit button; the Enter key pressed alone.
\<close>

definition chatgpt_idle :: "input_element option \<Rightarrow> chatgpt_system" where
  "chatgpt_idle el =
     \<lparr>world = \<lparr>inputElement = el, sendButton = True, mem0Button = Some False,
        messageContainer = Some [], isProcessingMem0 = False, searchCalls = [], addCalls = [],
        sendClicks = 0, popups = [], consoleErrors = [], inputEvents = 0\<rparr>,
      pending = []\<rparr>"

definition page_idle :: "string \<Rightarrow> string option \<Rightarrow> bool \<Rightarrow> page_system" where
  "page_idle v k button =
     \<lparr>page = \<lparr>textarea = Some \<lparr>ta_value = v, focused = True\<rparr>, submitButton = button,
        storage = \<lparr>apiKey = k, userId = None, access_token = None, memory_enabled = None\<rparr>,
        lastInputValue = v, page_searchCalls = [], page_addCalls = [], clickTimers = 0,
        page_sendClicks = 0, page_consoleErrors = [], page_inputEvents = 0\<rparr>,
      page_pendings = []\<rparr>"

definition enter_event :: keyboard_event where
  "enter_event = \<lparr>key = ''Enter'', shiftKey = False, isComposing = False\<rparr>"

text \<open>
  A successful search response that returns the given memories; what a cycle started by
  Enter on the draft \<open>hi\<close> holds while its search is pending, on Perplexity or Grok (with
  the API key \<open>k\<close>) and on ChatGPT; ChatGPT pages whose textarea holds \<open>hi\<close> and a block left
  by an earlier cycle, in the HTML form of ChatGPT and in the plain form, and what a cycle
  started by Enter on the first of them holds.
\<close>

definition found :: "string list \<Rightarrow> fetch_result" where
  "found memories = Response 200 (Some (JsonObject None (Some memories)))"

definition hi_pending :: page_pending where
  "hi_pending = \<lparr>q_capturedText = ''hi'', q_clickSendButton = True, q_message = ''hi'',
     q_userId = ''chrome-extension-user'', q_authHeader = ''Token k''\<rparr>"

definition hi_chat_pending :: chatgpt_pending where
  "hi_chat_pending = \<lparr>p_popup = False, p_clickSendButton = True, p_message = ''hi'',
     p_messages = [\<lparr>role = User, content = ''hi''\<rparr>]\<rparr>"

definition chat_html_block :: chatgpt_world where
  "chat_html_block =
     world (chatgpt_idle (Some (Textarea [] (''hi'' @ ''\<newline>'' @ chatgpt_memoriesContent [''old'']))))"

definition chat_plain_block :: chatgpt_world where
  "chat_plain_block =
     world (chatgpt_idle (Some (Textarea [] (''hi'' @ plain_memoriesContent [''old'']))))"

definition residue_pending :: chatgpt_pending where
  "residue_pending = \<lparr>p_popup = False, p_clickSendButton = True,
     p_message = ''hi'' @ ''\<newline>'' @ mem0_wrapper @ ''<strong>'',
     p_messages = [\<lparr>role = User, content = ''hi'' @ ''\<newline>'' @ mem0_wrapper @ ''<strong>''\<rparr>]\<rparr>"

section \<open>Notions used in the statements\<close>

text \<open>
  The markup or text of the input element that the composer reads and writes:
  \<^verbatim>\<open>innerHTML\<close> of a \<^verbatim>\<open>div\<close>, \<^verbatim>\<open>value\<close> of a \<^verbatim>\<open>textarea\<close>.
\<close>

definition input_content :: "input_element \<Rightarrow> string" where
  "input_content el = (case el of Div h t \<Rightarrow> h | Textarea t v \<Rightarrow> v)"



text \<open>
  At most one search of the ChatGPT page is pending, and \<^verbatim>\<open>isProcessingMem0\<close> is set
  exactly while one is.
\<close>

definition one_cycle :: "chatgpt_system \<Rightarrow> bool" where
  "one_cycle s = (length (pending s) \<le> 1 \<and> (isProcessingMem0 (world s) \<longleftrightarrow> pending s \<noteq> []))"




section \<open>Facts about strings\<close>

lemma memoryPrefix_not_Nil: "memoryPrefix \<noteq> []"
  by (simp add: memoryPrefix_def)

lemma memoryPrefix_hd: "\<not> isJsSpace (hd memoryPrefix)"
  by (simp add: memoryPrefix_def isJsSpace_def)

lemma rtrim_take: "\<exists>n. rev (dropWhile isJsSpace (rev t)) = take n t"
proof -
  have "dropWhile isJsSpace (rev t) = drop (length (takeWhile isJsSpace (rev t))) (rev t)"
    by (rule dropWhile_eq_drop)
  then have "rev (dropWhile isJsSpace (rev t)) =
      take (length t - length (takeWhile isJsSpace (rev t))) t"
    by (simp add: rev_drop)
  then show ?thesis by blast
qed

lemma trim_sub: "\<exists>n k. trim s = take n (drop k s)"
proof -
  obtain k where k: "dropWhile isJsSpace s = drop k s"
    using dropWhile_eq_drop by blast
  show ?thesis unfolding trim_def k using rtrim_take by blast
qed

lemma trim_Nil [simp]: "trim [] = []"
  by (simp add: trim_def)

lemma trim_id:
  assumes "s \<noteq> []" "\<not> isJsSpace (hd s)" "\<not> isJsSpace (last s)"
  shows "trim s = s"
proof -
  have a: "dropWhile isJsSpace s = s"
    using assms by (simp add: dropWhile_eq_self_iff)
  have "dropWhile isJsSpace (rev s) = rev s"
    using assms by (simp add: dropWhile_eq_self_iff hd_rev)
  with a show ?thesis by (simp add: trim_def)
qed

lemma trim_ends:
  assumes "trim s \<noteq> []"
  shows "\<not> isJsSpace (hd (trim s))" and "\<not> isJsSpace (last (trim s))"
proof -
  let ?d = "dropWhile isJsSpace s"
  let ?e = "dropWhile isJsSpace (rev ?d)"
  have e: "?e \<noteq> []" using assms by (simp add: trim_def)
  then have "\<not> isJsSpace (hd ?e)" by (rule hd_dropWhile)
  then show "\<not> isJsSpace (last (trim s))"
    using e by (simp add: trim_def last_rev)
  have d: "?d \<noteq> []"
    using e by (metis dropWhile.simps(1) rev.simps(1))
  then have hd: "\<not> isJsSpace (hd ?d)" by (rule hd_dropWhile)
  obtain n where n: "rev ?e = take n ?d"
    using rtrim_take [of ?d] by blast
  have "rev ?e \<noteq> []" using e by simp
  then have "hd (rev ?e) = hd ?d"
    unfolding n by (cases n; cases ?d) auto
  then show "\<not> isJsSpace (hd (trim s))"
    using hd by (simp add: trim_def)
qed

lemma trim_trim: "trim (trim s) = trim s"
proof (cases "trim s = []")
  case True
  then show ?thesis by simp
next
  case False
  then show ?thesis by (intro trim_id trim_ends)
qed

lemma memInfoRegex_at_take: "memInfoRegex_at (take n t) \<Longrightarrow> memInfoRegex_at t"
  unfolding memInfoRegex_at_def
proof (induction t arbitrary: n)
  case Nil
  then show ?case by simp
next
  case (Cons c t)
  show ?case
  proof (cases n)
    case 0
    with Cons.prems show ?thesis by (simp add: memoryPrefix_not_Nil)
  next
    case (Suc m)
    show ?thesis
    proof (cases "isJsSpace c")
      case True
      with Cons Suc show ?thesis by simp
    next
      case False
      with Cons.prems Suc have "prefix memoryPrefix (take (Suc m) (c # t))" by simp
      then have "prefix memoryPrefix (c # t)"
        using take_is_prefix prefix_order.trans by blast
      with False show ?thesis by simp
    qed
  qed
qed

lemma memInfoRegex_at_Nil [simp]: "\<not> memInfoRegex_at []"
  by (simp add: memInfoRegex_at_def memoryPrefix_not_Nil)

lemma no_memInfo_Nil [simp]: "no_memInfo []"
  by (simp add: no_memInfo_def)

lemma no_memInfo_Cons: "no_memInfo (c # cs) \<longleftrightarrow> \<not> memInfoRegex_at (c # cs) \<and> no_memInfo cs"
  unfolding no_memInfo_def
proof
  assume a: "\<forall>k. \<not> memInfoRegex_at (drop k (c # cs))"
  have "\<not> memInfoRegex_at (drop 0 (c # cs))" using a by blast
  moreover have "\<not> memInfoRegex_at (drop k cs)" for k using a [rule_format, of "Suc k"] by simp
  ultimately show "\<not> memInfoRegex_at (c # cs) \<and> (\<forall>k. \<not> memInfoRegex_at (drop k cs))" by simp
next
  assume a: "\<not> memInfoRegex_at (c # cs) \<and> (\<forall>k. \<not> memInfoRegex_at (drop k cs))"
  show "\<forall>k. \<not> memInfoRegex_at (drop k (c # cs))"
  proof
    fix k show "\<not> memInfoRegex_at (drop k (c # cs))"
      using a by (cases k) auto
  qed
qed

lemma replace_id_iff: "replace_memInfoRegex s = s \<longleftrightarrow> no_memInfo s"
  by (induction s) (auto simp: no_memInfo_Cons)

lemma no_memInfo_drop: "no_memInfo s \<Longrightarrow> no_memInfo (drop k s)"
  by (simp add: no_memInfo_def)

lemma no_memInfo_take: "no_memInfo s \<Longrightarrow> no_memInfo (take n s)"
  unfolding no_memInfo_def
proof
  fix k
  assume a: "\<forall>k. \<not> memInfoRegex_at (drop k s)"
  have "drop k (take n s) = take (n - k) (drop k s)" by (simp add: drop_take)
  then show "\<not> memInfoRegex_at (drop k (take n s))"
    using a memInfoRegex_at_take by metis
qed

lemma no_memInfo_trim: "no_memInfo s \<Longrightarrow> no_memInfo (trim s)"
  using trim_sub [of s] no_memInfo_take no_memInfo_drop by metis

lemma replace_is_take: "\<exists>n. replace_memInfoRegex s = take n s"
proof (induction s)
  case Nil
  then show ?case by simp
next
  case (Cons c s)
  then obtain n where n: "replace_memInfoRegex s = take n s" by blast
  show ?case
  proof (cases "memInfoRegex_at (c # s)")
    case True
    then have "replace_memInfoRegex (c # s) = take 0 (c # s)" by simp
    then show ?thesis by blast
  next
    case False
    then have "replace_memInfoRegex (c # s) = take (Suc n) (c # s)" using n by simp
    then show ?thesis by blast
  qed
qed

lemma no_memInfo_replace: "no_memInfo (replace_memInfoRegex s)"
proof (induction s)
  case Nil
  then show ?case by simp
next
  case (Cons c s)
  obtain n where n: "replace_memInfoRegex s = take n s"
    using replace_is_take by blast
  show ?case
  proof (cases "memInfoRegex_at (c # s)")
    case True
    then show ?thesis by simp
  next
    case False
    have "\<not> memInfoRegex_at (take (Suc n) (c # s))"
      using False memInfoRegex_at_take by blast
    then show ?thesis using False Cons n by (simp add: no_memInfo_Cons)
  qed
qed

lemma indexOf_Some_take:
  "indexOf s pat = Some i \<Longrightarrow> take (i + length pat) s = take i s @ pat"
proof (induction s arbitrary: i)
  case Nil
  then show ?case by (simp split: if_splits)
next
  case (Cons c s)
  show ?case
  proof (cases "prefix pat (c # s)")
    case True
    then obtain r where "c # s = pat @ r" by (auto elim: prefixE)
    moreover have "i = 0" using True Cons.prems by simp
    ultimately show ?thesis by simp
  next
    case False
    then obtain j where j: "indexOf s pat = Some j" "i = Suc j"
      using Cons.prems by auto
    from Cons.IH [OF j(1)] show ?thesis using j(2) by simp
  qed
qed

lemma indexOf_take_same:
  "indexOf s pat = Some i \<Longrightarrow> indexOf (take (i + length pat) s) pat = Some i"
proof (induction s arbitrary: i)
  case Nil
  then show ?case by (simp split: if_splits)
next
  case (Cons c s)
  show ?case
  proof (cases "prefix pat (c # s)")
    case True
    then obtain r where r: "c # s = pat @ r" by (auto elim: prefixE)
    have i: "i = 0" using True Cons.prems by simp
    have "take (length pat) (c # s) = pat" using r by simp
    then show ?thesis
      using i by (cases pat) auto
  next
    case False
    then obtain j where j: "indexOf s pat = Some j" "i = Suc j"
      using Cons.prems by auto
    have np: "\<not> prefix pat (c # take (j + length pat) s)"
      using False take_is_prefix [of "Suc (j + length pat)" "c # s"] prefix_order.trans
      by fastforce
    from Cons.IH [OF j(1)] show ?thesis using j(2) np by simp
  qed
qed

lemma indexOf_None_iff: "indexOf s pat = None \<longleftrightarrow> (\<forall>k. \<not> prefix pat (drop k s))"
proof (induction s)
  case Nil
  then show ?case by simp
next
  case (Cons c s)
  have "(\<forall>k. \<not> prefix pat (drop k (c # s))) \<longleftrightarrow>
        \<not> prefix pat (c # s) \<and> (\<forall>k. \<not> prefix pat (drop k s))"
  proof
    assume a: "\<forall>k. \<not> prefix pat (drop k (c # s))"
    have "\<not> prefix pat (drop 0 (c # s))" using a by blast
    moreover have "\<not> prefix pat (drop k s)" for k using a [rule_format, of "Suc k"] by simp
    ultimately show "\<not> prefix pat (c # s) \<and> (\<forall>k. \<not> prefix pat (drop k s))" by simp
  next
    assume a: "\<not> prefix pat (c # s) \<and> (\<forall>k. \<not> prefix pat (drop k s))"
    show "\<forall>k. \<not> prefix pat (drop k (c # s))"
    proof
      fix k show "\<not> prefix pat (drop k (c # s))" using a by (cases k) auto
    qed
  qed
  with Cons show ?case by auto
qed

lemma no_memInfo_indexOf: "no_memInfo s \<Longrightarrow> indexOf s memoryPrefix = None"
proof -
  assume a: "no_memInfo s"
  have "\<not> prefix memoryPrefix (drop k s)" for k
  proof
    assume p: "prefix memoryPrefix (drop k s)"
    then have "drop k s \<noteq> []" using memoryPrefix_not_Nil by auto
    moreover have "hd (drop k s) = hd memoryPrefix"
      using p memoryPrefix_not_Nil by (auto elim!: prefixE simp: hd_append)
    ultimately have "dropWhile isJsSpace (drop k s) = drop k s"
      using memoryPrefix_hd by (simp add: dropWhile_eq_self_iff)
    then have "memInfoRegex_at (drop k s)" using p by (simp add: memInfoRegex_at_def)
    then show False using a by (simp add: no_memInfo_def)
  qed
  then show ?thesis by (simp add: indexOf_None_iff)
qed

lemma chatgpt_message_idem: "chatgpt_message (chatgpt_message c) = chatgpt_message c"
proof -
  define m where "m = trim (replace_memInfoRegex c)"
  have nm: "no_memInfo m"
    unfolding m_def by (intro no_memInfo_trim no_memInfo_replace)
  have tm: "trim m = m" unfolding m_def by (rule trim_trim)
  show ?thesis
  proof (cases "indexOf m ''</p>''")
    case None
    then have r: "chatgpt_message c = m" by (simp add: chatgpt_message_def m_def)
    have "replace_memInfoRegex m = m" using nm by (simp add: replace_id_iff)
    then have "chatgpt_message m = m" using tm None by (simp add: chatgpt_message_def)
    with r show ?thesis by simp
  next
    case (Some i)
    define r where "r = take (i + 4) m"
    have res: "chatgpt_message c = r"
      using Some by (simp add: chatgpt_message_def m_def r_def)
    have "length ''</p>'' = 4" by simp
    then have r_app: "r = take i m @ ''</p>''"
      using indexOf_Some_take [OF Some] unfolding r_def by metis
    have "m \<noteq> []" using Some by auto
    then have "\<not> isJsSpace (hd m)" using trim_ends(1) [of "replace_memInfoRegex c"] by (simp add: m_def)
    moreover have "hd r = hd m" using \<open>m \<noteq> []\<close> by (cases m) (auto simp: r_def)
    ultimately have h: "\<not> isJsSpace (hd r)" by simp
    have l: "\<not> isJsSpace (last r)" by (simp add: r_app isJsSpace_def)
    have "r \<noteq> []" by (simp add: r_app)
    then have tr: "trim r = r" using h l by (rule trim_id)
    have "no_memInfo r" unfolding r_def using nm by (rule no_memInfo_take)
    then have rr: "replace_memInfoRegex r = r" by (simp add: replace_id_iff)
    have ir: "indexOf r ''</p>'' = Some i"
      using indexOf_take_same [OF Some] \<open>length ''</p>'' = 4\<close> unfolding r_def by metis
    have "chatgpt_message r = r"
      using rr tr ir by (simp add: chatgpt_message_def r_def)
    with res show ?thesis by simp
  qed
qed

lemma indexOf_first:
  "indexOf s pat = Some i \<Longrightarrow> k < i \<Longrightarrow> \<not> prefix pat (drop k s)"
proof (induction s arbitrary: i k)
  case Nil
  then show ?case by (simp split: if_splits)
next
  case (Cons c s)
  have np: "\<not> prefix pat (c # s)"
    using Cons.prems by (auto split: if_splits)
  then obtain j where j: "indexOf s pat = Some j" "i = Suc j"
    using Cons.prems by auto
  show ?case
  proof (cases k)
    case 0
    then show ?thesis using np by simp
  next
    case (Suc k')
    then have "k' < j" using Cons.prems(2) j(2) by simp
    from Cons.IH [OF j(1) this] show ?thesis using Suc by simp
  qed
qed

lemma occ_free_no_memInfo:
  assumes "\<forall>k. \<not> prefix memoryPrefix (drop k s)"
  shows "no_memInfo s"
  unfolding no_memInfo_def memInfoRegex_at_def
proof
  fix k
  have "dropWhile isJsSpace (drop k s) = drop (length (takeWhile isJsSpace (drop k s)) + k) s"
    by (simp add: dropWhile_eq_drop)
  then show "\<not> prefix memoryPrefix (dropWhile isJsSpace (drop k s))"
    using assms by simp
qed

lemma no_memInfo_iff_indexOf: "no_memInfo s \<longleftrightarrow> indexOf s memoryPrefix = None"
  using no_memInfo_indexOf occ_free_no_memInfo indexOf_None_iff by blast

lemma no_memInfo_before_indexOf:
  assumes "indexOf s memoryPrefix = Some i"
  shows "no_memInfo (take i s)"
proof (rule occ_free_no_memInfo, rule allI, rule notI)
  fix k
  assume p: "prefix memoryPrefix (drop k (take i s))"
  have d: "drop k (take i s) = take (i - k) (drop k s)" by (simp add: drop_take)
  have "drop k (take i s) \<noteq> []" using p memoryPrefix_not_Nil by auto
  then have "k < i" by auto
  moreover have "prefix memoryPrefix (drop k s)"
    using p d take_is_prefix prefix_order.trans by metis
  ultimately show False using indexOf_first [OF assms] by blast
qed

lemma grok_lastInputValue_idem:
  "grok_lastInputValue (grok_lastInputValue c) = grok_lastInputValue c"
proof (cases "indexOf c memoryPrefix")
  case None
  then show ?thesis by (simp add: grok_lastInputValue_def)
next
  case (Some i)
  have "no_memInfo (trim (take i c))"
    using no_memInfo_before_indexOf [OF Some] by (rule no_memInfo_trim)
  then have "indexOf (trim (take i c)) memoryPrefix = None"
    by (simp add: no_memInfo_iff_indexOf)
  then show ?thesis using Some by (simp add: grok_lastInputValue_def)
qed

lemma prefix_hd: "prefix p s \<Longrightarrow> p \<noteq> [] \<Longrightarrow> hd p = hd s"
  by (cases p; cases s) auto

lemma memoryPrefix_last: "\<not> isJsSpace (last memoryPrefix)"
  by (simp add: memoryPrefix_def isJsSpace_def)

lemma memoryPrefix_hd_tl: "hd memoryPrefix \<notin> set (tl memoryPrefix)"
  by (simp add: memoryPrefix_def)

lemma no_match_across:
  assumes nb: "no_memInfo b" and ne: "b \<noteq> []" and lb: "\<not> isJsSpace (last b)"
    and ws: "list_all isJsSpace ws"
  shows "\<not> memInfoRegex_at (b @ ws @ memoryPrefix @ rest)"
proof
  assume m: "memInfoRegex_at (b @ ws @ memoryPrefix @ rest)"
  define d where "d = dropWhile isJsSpace b"
  have "last b \<in> set b" using ne by simp
  then have dw: "dropWhile isJsSpace (b @ ws @ memoryPrefix @ rest) = d @ ws @ memoryPrefix @ rest"
    unfolding d_def using lb by (rule dropWhile_append1)
  have dne: "d \<noteq> []"
    unfolding d_def using \<open>last b \<in> set b\<close> lb by auto
  have npd: "\<not> prefix memoryPrefix d"
    using nb [unfolded no_memInfo_def, rule_format, of 0]
    by (simp add: memInfoRegex_at_def d_def)
  have "prefix memoryPrefix (d @ ws @ memoryPrefix @ rest)"
    using m dw by (simp add: memInfoRegex_at_def)
  then obtain m' where m': "memoryPrefix = d @ m'" "prefix m' (ws @ memoryPrefix @ rest)"
    using npd by (auto simp: prefix_append)
  have m'ne: "m' \<noteq> []" using m'(1) npd by auto
  from m'(2) consider "prefix m' ws"
    | u where "m' = ws @ u" "prefix u (memoryPrefix @ rest)"
    by (auto simp: prefix_append)
  then show False
  proof cases
    case 1
    then have "set m' \<subseteq> set ws" by (auto elim!: prefixE)
    moreover have "last m' \<in> set m'" using m'ne by simp
    ultimately have "last m' \<in> set ws" by blast
    then have "isJsSpace (last m')" using ws by (simp add: list_all_iff)
    moreover have "last memoryPrefix = last m'" using m'(1) m'ne by (metis last_appendR)
    ultimately show False using memoryPrefix_last by simp
  next
    case 2
    show False
    proof (cases "u = []")
      case True
      then have "m' = ws" using 2(1) by simp
      moreover have "last m' \<in> set m'" using m'ne by simp
      ultimately have "last m' \<in> set ws" by simp
      then have "isJsSpace (last m')" using ws by (simp add: list_all_iff)
      moreover have "last memoryPrefix = last m'" using m'(1) m'ne by (metis last_appendR)
      ultimately show False using memoryPrefix_last by simp
    next
      case False
      then have "hd u = hd (memoryPrefix @ rest)"
        using 2(2) by (rule prefix_hd [rotated])
      then have "hd u = hd memoryPrefix"
        using memoryPrefix_not_Nil by (simp add: hd_append)
      then have "hd memoryPrefix \<in> set (ws @ u)" using False by (cases u) auto
      moreover have "tl memoryPrefix = tl d @ ws @ u"
        using m'(1) 2(1) dne by (metis tl_append2)
      ultimately have "hd memoryPrefix \<in> set (tl memoryPrefix)" by auto
      then show False using memoryPrefix_hd_tl by simp
    qed
  qed
qed

lemma memInfoRegex_at_marker:
  assumes "list_all isJsSpace ws"
  shows "memInfoRegex_at (ws @ memoryPrefix @ rest)"
proof -
  have "dropWhile isJsSpace memoryPrefix = memoryPrefix"
    using memoryPrefix_hd memoryPrefix_not_Nil by (simp add: dropWhile_eq_self_iff)
  then have "dropWhile isJsSpace (ws @ memoryPrefix @ rest) = memoryPrefix @ rest"
    using assms memoryPrefix_hd memoryPrefix_not_Nil
    by (cases memoryPrefix) (auto simp: dropWhile_append list_all_iff)
  then show ?thesis by (simp add: memInfoRegex_at_def)
qed

lemma replace_append_marker:
  assumes "no_memInfo a" "a = [] \<or> \<not> isJsSpace (last a)" "list_all isJsSpace ws"
  shows "replace_memInfoRegex (a @ ws @ memoryPrefix @ rest) = a"
  using assms
proof (induction a)
  case Nil
  have "memInfoRegex_at (ws @ memoryPrefix @ rest)"
    using Nil(3) by (rule memInfoRegex_at_marker)
  then show ?case by (cases "ws @ memoryPrefix @ rest") (auto simp: memoryPrefix_not_Nil)
next
  case (Cons c a)
  have na: "no_memInfo a"
    using Cons.prems(1) by (simp add: no_memInfo_Cons)
  have la: "a = [] \<or> \<not> isJsSpace (last a)" using Cons.prems(2) by (auto split: if_splits)
  have ih: "replace_memInfoRegex (a @ ws @ memoryPrefix @ rest) = a"
    using Cons.IH [OF na la Cons.prems(3)] .
  have "\<not> memInfoRegex_at ((c # a) @ ws @ memoryPrefix @ rest)"
    using Cons.prems by (intro no_match_across) auto
  then show ?case using ih by simp
qed

lemma trimmed_cases: "trim a = a \<Longrightarrow> a = [] \<or> (\<not> isJsSpace (hd a) \<and> \<not> isJsSpace (last a))"
  using trim_ends [of a] by auto

lemma chatgpt_message_recovers:
  assumes "trim a = a" "no_memInfo a" "indexOf a ''</p>'' = None" "list_all isJsSpace ws"
  shows "chatgpt_message (a @ ws @ memoryPrefix @ rest) = a"
proof -
  have "replace_memInfoRegex (a @ ws @ memoryPrefix @ rest) = a"
    using assms trimmed_cases [OF assms(1)] by (intro replace_append_marker) auto
  then show ?thesis using assms by (simp add: chatgpt_message_def)
qed

lemma indexOf_append_marker:
  assumes "no_memInfo a" "a = [] \<or> \<not> isJsSpace (last a)" "list_all isJsSpace ws"
  shows "indexOf (a @ ws @ memoryPrefix @ rest) memoryPrefix = Some (length a + length ws)"
  using assms
proof (induction a)
  case Nil
  from Nil(3) show ?case
  proof (induction ws)
    case Nil
    have "prefix memoryPrefix (memoryPrefix @ rest)" by simp
    then show ?case by (cases "memoryPrefix @ rest") (auto simp: memoryPrefix_not_Nil)
  next
    case (Cons w ws)
    have "\<not> prefix memoryPrefix (w # ws @ memoryPrefix @ rest)"
    proof
      assume "prefix memoryPrefix (w # ws @ memoryPrefix @ rest)"
      then have "hd memoryPrefix = w"
        using memoryPrefix_not_Nil prefix_hd by fastforce
      then show False using Cons.prems memoryPrefix_hd by simp
    qed
    then show ?case using Cons by simp
  qed
next
  case (Cons c a)
  have na: "no_memInfo a"
    using Cons.prems(1) by (simp add: no_memInfo_Cons)
  have la: "a = [] \<or> \<not> isJsSpace (last a)" using Cons.prems(2) by (auto split: if_splits)
  have nm: "\<not> memInfoRegex_at ((c # a) @ ws @ memoryPrefix @ rest)"
    using Cons.prems by (intro no_match_across) auto
  have "\<not> prefix memoryPrefix ((c # a) @ ws @ memoryPrefix @ rest)"
  proof
    assume p: "prefix memoryPrefix ((c # a) @ ws @ memoryPrefix @ rest)"
    then have "c = hd memoryPrefix" using memoryPrefix_not_Nil prefix_hd by fastforce
    then have "\<not> isJsSpace c" using memoryPrefix_hd by simp
    then show False using p nm by (simp add: memInfoRegex_at_def)
  qed
  then show ?case using Cons.IH [OF na la Cons.prems(3)] by simp
qed

lemma grok_lastInputValue_recovers:
  assumes "trim a = a" "no_memInfo a" "list_all isJsSpace ws"
  shows "grok_lastInputValue (a @ ws @ memoryPrefix @ rest) = a"
proof -
  have i: "indexOf (a @ ws @ memoryPrefix @ rest) memoryPrefix = Some (length a + length ws)"
    using assms trimmed_cases [OF assms(1)] by (intro indexOf_append_marker) auto
  have "trim (a @ ws) = a"
  proof (cases "a = []")
    case True
    have "dropWhile isJsSpace ws = []" using assms(3) by (simp add: list_all_iff)
    then show ?thesis using True by (simp add: trim_def del: dropWhile_eq_Nil_conv)
  next
    case False
    then have h: "\<not> isJsSpace (hd a)" and l: "\<not> isJsSpace (last a)"
      using trimmed_cases [OF assms(1)] by auto
    have "dropWhile isJsSpace (a @ ws) = a @ ws"
      using False h by (simp add: dropWhile_eq_self_iff hd_append)
    moreover have "dropWhile isJsSpace (rev ws @ rev a) = rev a"
      using False l assms(3) by (simp add: dropWhile_append list_all_iff dropWhile_eq_self_iff hd_rev)
    ultimately show ?thesis by (simp add: trim_def)
  qed
  then show ?thesis using i by (simp add: grok_lastInputValue_def)
qed

section \<open>Facts about the scripts\<close>

lemma getInputValue_loading [simp]:
  "getInputValue (setButtonLoadingState b w) = getInputValue w"
  by (simp add: getInputValue_def setButtonLoadingState_def split: option.splits)

lemma setButtonLoadingState_fields [simp]:
  "inputElement (setButtonLoadingState b w) = inputElement w"
  "sendButton (setButtonLoadingState b w) = sendButton w"
  "messageContainer (setButtonLoadingState b w) = messageContainer w"
  "isProcessingMem0 (setButtonLoadingState b w) = isProcessingMem0 w"
  "searchCalls (setButtonLoadingState b w) = searchCalls w"
  "addCalls (setButtonLoadingState b w) = addCalls w"
  "sendClicks (setButtonLoadingState b w) = sendClicks w"
  "popups (setButtonLoadingState b w) = popups w"
  "consoleErrors (setButtonLoadingState b w) = consoleErrors w"
  "inputEvents (setButtonLoadingState b w) = inputEvents w"
  by (simp_all add: setButtonLoadingState_def split: option.splits)

lemma showPopup_fields [simp]:
  "inputElement (showPopup b m w) = inputElement w"
  "sendButton (showPopup b m w) = sendButton w"
  "mem0Button (showPopup b m w) = mem0Button w"
  "messageContainer (showPopup b m w) = messageContainer w"
  "isProcessingMem0 (showPopup b m w) = isProcessingMem0 w"
  "searchCalls (showPopup b m w) = searchCalls w"
  "addCalls (showPopup b m w) = addCalls w"
  "sendClicks (showPopup b m w) = sendClicks w"
  "popups (showPopup b m w) = (if b then popups w @ [m] else popups w)"
  "consoleErrors (showPopup b m w) = consoleErrors w"
  "inputEvents (showPopup b m w) = inputEvents w"
  by (simp_all add: showPopup_def)

lemma console_error_fields [simp]:
  "inputElement (console_error m w) = inputElement w"
  "sendButton (console_error m w) = sendButton w"
  "mem0Button (console_error m w) = mem0Button w"
  "messageContainer (console_error m w) = messageContainer w"
  "isProcessingMem0 (console_error m w) = isProcessingMem0 w"
  "searchCalls (console_error m w) = searchCalls w"
  "addCalls (console_error m w) = addCalls w"
  "sendClicks (console_error m w) = sendClicks w"
  "popups (console_error m w) = popups w"
  "consoleErrors (console_error m w) = consoleErrors w @ [m]"
  "inputEvents (console_error m w) = inputEvents w"
  by (simp_all add: console_error_def)

lemma handleMem0Click_catch_fields [simp]:
  "inputElement (handleMem0Click_catch b w) = inputElement w"
  "sendButton (handleMem0Click_catch b w) = sendButton w"
  "messageContainer (handleMem0Click_catch b w) = messageContainer w"
  "isProcessingMem0 (handleMem0Click_catch b w) = False"
  "searchCalls (handleMem0Click_catch b w) = searchCalls w"
  "addCalls (handleMem0Click_catch b w) = addCalls w"
  "sendClicks (handleMem0Click_catch b w) = sendClicks w"
  "popups (handleMem0Click_catch b w) =
     (if b then popups w @ [''Error connecting to local Mem0 server''] else popups w)"
  "consoleErrors (handleMem0Click_catch b w) = consoleErrors w @ [''Mem0 Local Error:'']"
  "inputEvents (handleMem0Click_catch b w) = inputEvents w"
  by (simp_all add: handleMem0Click_catch_def)

lemma page_console_error_fields [simp]:
  "textarea (page_console_error m w) = textarea w"
  "submitButton (page_console_error m w) = submitButton w"
  "storage (page_console_error m w) = storage w"
  "lastInputValue (page_console_error m w) = lastInputValue w"
  "page_searchCalls (page_console_error m w) = page_searchCalls w"
  "page_addCalls (page_console_error m w) = page_addCalls w"
  "clickTimers (page_console_error m w) = clickTimers w"
  "page_sendClicks (page_console_error m w) = page_sendClicks w"
  "page_consoleErrors (page_console_error m w) = page_consoleErrors w @ [m]"
  "page_inputEvents (page_console_error m w) = page_inputEvents w"
  by (simp_all add: page_console_error_def)

lemma setInputValue_fields [simp]:
  "textarea (setInputValue v w) = map_option (\<lambda>ta. ta\<lparr>ta_value := v\<rparr>) (textarea w)"
  "submitButton (setInputValue v w) = submitButton w"
  "storage (setInputValue v w) = storage w"
  "page_searchCalls (setInputValue v w) = page_searchCalls w"
  "page_addCalls (setInputValue v w) = page_addCalls w"
  "clickTimers (setInputValue v w) = clickTimers w"
  "page_sendClicks (setInputValue v w) = page_sendClicks w"
  "page_consoleErrors (setInputValue v w) = page_consoleErrors w"
  by (simp_all add: setInputValue_def split: option.splits)

lemma forEach_closed:
  "len = index + length ms \<Longrightarrow>
   memoriesContent_forEach ms index len acc =
     acc @ (if ms = [] then [] else
            concat (map (\<lambda>m. ''- '' @ m @ ''\<newline>'') (butlast ms)) @ ''- '' @ last ms)"
proof (induction ms arbitrary: index acc)
  case Nil
  then show ?case by simp
next
  case (Cons m ms)
  have "memoriesContent_forEach ms (index + 1) len
          (acc @ ''- '' @ m @ (if index < len - 1 then ''\<newline>'' else '''')) =
        (acc @ ''- '' @ m @ (if index < len - 1 then ''\<newline>'' else '''')) @
          (if ms = [] then [] else
            concat (map (\<lambda>m. ''- '' @ m @ ''\<newline>'') (butlast ms)) @ ''- '' @ last ms)"
    using Cons.prems by (intro Cons.IH) simp
  moreover have "index < len - 1 \<longleftrightarrow> ms \<noteq> []" using Cons.prems by auto
  ultimately show ?case by simp
qed

lemma plain_memoriesContent_closed:
  "memories \<noteq> [] \<Longrightarrow>
   plain_memoriesContent memories =
     ''\<newline>\<newline>'' @ memoryPrefix @ ''\<newline>'' @
     concat (map (\<lambda>m. ''- '' @ m @ ''\<newline>'') (butlast memories)) @ ''- '' @ last memories"
  by (simp add: plain_memoriesContent_def forEach_closed)

lemma foldl_append_closed: "foldl (\<lambda>acc m. acc @ f m) a ms = a @ concat (map f ms)"
  by (induction ms arbitrary: a) simp_all

lemma chatgpt_memoriesContent_closed:
  "chatgpt_memoriesContent memories =
     mem0_wrapper @ ''<strong>'' @ memoryPrefix @ ''</strong>'' @
     concat (map (\<lambda>m. ''<div>- '' @ m @ ''</div>'') memories) @ ''</div>''"
  unfolding chatgpt_memoriesContent_def
  using foldl_append_closed [of "\<lambda>m. ''<div>- '' @ m @ ''</div>''"] by simp

lemma chatgpt_currentContent_clean:
  assumes "trim c = c" "no_memInfo c" "\<not> suffix lastParagraph c"
  shows "chatgpt_currentContent c = c"
proof -
  have "replace_memInfoRegex c = c" using assms(2) by (simp add: replace_id_iff)
  then show ?thesis using assms by (simp add: chatgpt_currentContent_def replace_lastParagraphRegex_def)
qed

lemma clickSendButtonWithDelay_fields [simp]:
  "textarea (clickSendButtonWithDelay w) = textarea w"
  "page_addCalls (clickSendButtonWithDelay w) = page_addCalls w"
  "page_searchCalls (clickSendButtonWithDelay w) = page_searchCalls w"
  "clickTimers (clickSendButtonWithDelay w) = clickTimers w + 1"
  by (simp_all add: clickSendButtonWithDelay_def)

lemma page_add_fields [simp]:
  "textarea (page_add n p w) = textarea w"
  "page_searchCalls (page_add n p w) = page_searchCalls w"
  "clickTimers (page_add n p w) = clickTimers w"
  by (simp_all add: page_add_def)

lemma clickSend_fields [simp]:
  "inputElement (clickSend w) = inputElement w"
  "addCalls (clickSend w) = addCalls w"
  "searchCalls (clickSend w) = searchCalls w"
  "isProcessingMem0 (clickSend w) = isProcessingMem0 w"
  by (simp_all add: clickSend_def)

lemma resume_inputElement_memories:
  assumes "ok status" "inputElement w = Some el" "chatgpt_memories rd \<noteq> []"
  shows "inputElement (fst (handleMem0Click_resume html_text p (Response status (Some rd)) w)) =
           Some (injectMemories html_text el (chatgpt_memories rd))"
  using assms by (simp add: handleMem0Click_resume_def Let_def)

lemma resume_inputElement_empty:
  assumes "ok status" "inputElement w = Some el" "chatgpt_memories rd = []"
  shows "inputElement (fst (handleMem0Click_resume html_text p (Response status (Some rd)) w)) =
           Some (restoreMessage html_text el (p_message p))"
  using assms by (simp add: handleMem0Click_resume_def Let_def)

lemma occurrences_zero_iff:
  "pat \<noteq> [] \<Longrightarrow> occurrences pat s = 0 \<longleftrightarrow> indexOf s pat = None"
  by (induction s) auto

lemma no_memInfo_chatgpt_message: "no_memInfo (chatgpt_message raw)"
proof -
  have "no_memInfo (trim (replace_memInfoRegex raw))"
    by (intro no_memInfo_trim no_memInfo_replace)
  then show ?thesis
    by (auto simp: chatgpt_message_def Let_def no_memInfo_take split: option.splits)
qed

lemma begin_message_clean:
  assumes "handleMem0Click_begin popup clickSendButton w0 = (w1, Awaiting p)"
  shows "p_message p = chatgpt_message (the (getInputValue w0))"
    and "occurrences memoryPrefix (p_message p) = 0"
proof -
  show m: "p_message p = chatgpt_message (the (getInputValue w0))"
    using assms
    by (auto simp: handleMem0Click_begin_def getMemoryEnabledState_def Let_def
        split: if_splits option.splits)
  show "occurrences memoryPrefix (p_message p) = 0"
    using m no_memInfo_chatgpt_message [of "the (getInputValue w0)"]
    by (simp add: occurrences_zero_iff memoryPrefix_not_Nil no_memInfo_iff_indexOf [symmetric])
qed

lemma plain_memoriesContent_form:
  "\<exists>rest. plain_memoriesContent memories = ''\<newline>\<newline>'' @ memoryPrefix @ rest"
  by (simp add: plain_memoriesContent_def forEach_closed)

lemma prefix_sep:
  assumes "c \<notin> set pat"
  shows "prefix pat (a @ c # b) \<longleftrightarrow> prefix pat a"
proof
  assume p: "prefix pat (a @ c # b)"
  show "prefix pat a"
  proof (rule ccontr)
    assume n: "\<not> prefix pat a"
    then obtain us where us: "pat = a @ us" "prefix us (c # b)"
      using p by (auto simp: prefix_append)
    have "us \<noteq> []" using us(1) n by auto
    then have "hd us = c" using us(2) prefix_hd [of us "c # b"] by simp
    then have "c \<in> set pat" using us(1) \<open>us \<noteq> []\<close> by (cases us) auto
    with assms show False by simp
  qed
next
  assume "prefix pat a"
  then show "prefix pat (a @ c # b)" by simp
qed

lemma occurrences_sep:
  assumes "c \<notin> set pat" "pat \<noteq> []"
  shows "occurrences pat (a @ c # b) = occurrences pat a + occurrences pat b"
proof (induction a)
  case Nil
  have "\<not> prefix pat (c # b)" using assms prefix_hd [of pat "c # b"] by (cases pat) auto
  then show ?case using assms by simp
next
  case (Cons x a)
  have "prefix pat (x # a @ c # b) \<longleftrightarrow> prefix pat (x # a)"
    using prefix_sep [OF assms(1), of "x # a" b] by simp
  then show ?case using Cons by simp
qed

lemma lt_notin_memoryPrefix: "CHR ''<'' \<notin> set memoryPrefix"
  by (simp add: memoryPrefix_def)

lemma gt_notin_memoryPrefix: "CHR ''>'' \<notin> set memoryPrefix"
  by (simp add: memoryPrefix_def)

lemma nl_notin_memoryPrefix: "CHR ''\<newline>'' \<notin> set memoryPrefix"
  by (simp add: memoryPrefix_def)

lemma occurrences_memoryPrefix_self: "occurrences memoryPrefix memoryPrefix = 1"
  unfolding memoryPrefix_def by code_simp

lemma occ_lt: "occurrences memoryPrefix (a @ CHR ''<'' # b) =
    occurrences memoryPrefix a + occurrences memoryPrefix b"
  using lt_notin_memoryPrefix memoryPrefix_not_Nil by (rule occurrences_sep)

lemma occ_gt: "occurrences memoryPrefix (a @ CHR ''>'' # b) =
    occurrences memoryPrefix a + occurrences memoryPrefix b"
  using gt_notin_memoryPrefix memoryPrefix_not_Nil by (rule occurrences_sep)

lemma occ_nl: "occurrences memoryPrefix (a @ CHR ''\<newline>'' # b) =
    occurrences memoryPrefix a + occurrences memoryPrefix b"
  using nl_notin_memoryPrefix memoryPrefix_not_Nil by (rule occurrences_sep)

lemma occ_Nil: "occurrences memoryPrefix [] = 0"
  by (simp add: memoryPrefix_not_Nil)

lemma occ_bullets:
  assumes "\<forall>m\<in>set memories. indexOf m memoryPrefix = None"
  shows "occurrences memoryPrefix
           (concat (map (\<lambda>m. ''<div>- '' @ m @ ''</div>'') memories) @ ''</div>'') = 0"
  using assms
proof (induction memories)
  case Nil
  have "occurrences memoryPrefix ''</div>'' = 0"
    unfolding memoryPrefix_def by code_simp
  then show ?case by simp
next
  case (Cons m ms)
  have m0: "occurrences memoryPrefix m = 0"
    using Cons.prems by (simp add: occurrences_zero_iff memoryPrefix_not_Nil)
  have ih: "occurrences memoryPrefix
           (concat (map (\<lambda>m. ''<div>- '' @ m @ ''</div>'') ms) @ ''</div>'') = 0"
    using Cons by simp
  have d1: "occurrences memoryPrefix ''<div'' = 0" unfolding memoryPrefix_def by code_simp
  have d2: "occurrences memoryPrefix ''/div'' = 0" unfolding memoryPrefix_def by code_simp
  have d3: "\<not> prefix memoryPrefix (CHR ''-'' # x)" for x
    using prefix_hd [of memoryPrefix "CHR ''-'' # x"] memoryPrefix_not_Nil
    by (auto simp: memoryPrefix_def)
  have d4: "\<not> prefix memoryPrefix (CHR '' '' # x)" for x
    using prefix_hd [of memoryPrefix "CHR '' '' # x"] memoryPrefix_not_Nil
    by (auto simp: memoryPrefix_def)
  have "concat (map (\<lambda>m. ''<div>- '' @ m @ ''</div>'') (m # ms)) @ ''</div>'' =
        ''<div'' @ CHR ''>'' # ((''- '' @ m) @ CHR ''<'' # (''/div'' @ CHR ''>'' #
           (concat (map (\<lambda>m. ''<div>- '' @ m @ ''</div>'') ms) @ ''</div>'')))"
    by simp
  moreover have "occurrences memoryPrefix (''- '' @ m) = 0"
    using m0 d3 d4 by simp
  ultimately show ?case
    using ih d1 d2 by (simp only: occ_gt occ_lt)
qed

lemma no_memInfo_currentContent: "no_memInfo (chatgpt_currentContent c)"
proof -
  have "no_memInfo (trim (replace_memInfoRegex c))"
    by (intro no_memInfo_trim no_memInfo_replace)
  then have "no_memInfo (replace_lastParagraphRegex (trim (replace_memInfoRegex c)))"
    by (simp add: replace_lastParagraphRegex_def no_memInfo_take)
  then show ?thesis unfolding chatgpt_currentContent_def by (rule no_memInfo_trim)
qed

lemma occ_currentContent: "occurrences memoryPrefix (chatgpt_currentContent c) = 0"
  using no_memInfo_currentContent [of c]
  by (simp add: occurrences_zero_iff memoryPrefix_not_Nil no_memInfo_iff_indexOf)

lemma occ_block:
  assumes "\<forall>m\<in>set memories. indexOf m memoryPrefix = None"
  shows "occurrences memoryPrefix (chatgpt_memoriesContent memories) = 1"
proof -
  have w: "occurrences memoryPrefix (butlast mem0_wrapper) = 0"
    unfolding memoryPrefix_def mem0_wrapper_def by code_simp
  have s1: "occurrences memoryPrefix ''<strong'' = 0" unfolding memoryPrefix_def by code_simp
  have s2: "occurrences memoryPrefix ''/strong'' = 0" unfolding memoryPrefix_def by code_simp
  have mw: "mem0_wrapper = butlast mem0_wrapper @ ''>''"
    unfolding mem0_wrapper_def by code_simp
  have "chatgpt_memoriesContent memories =
      butlast mem0_wrapper @ CHR ''>'' # (''<strong'' @ CHR ''>'' # (memoryPrefix @ CHR ''<'' #
        (''/strong'' @ CHR ''>'' #
          (concat (map (\<lambda>m. ''<div>- '' @ m @ ''</div>'') memories) @ ''</div>''))))"
    unfolding chatgpt_memoriesContent_closed using mw by simp
  then show ?thesis
    using w s1 s2 occ_bullets [OF assms] occurrences_memoryPrefix_self
    by (simp only: occ_gt occ_lt)
qed






lemma begin_flag_set:
  assumes "isProcessingMem0 w"
  shows "snd (handleMem0Click_begin popup c w) = Returned \<and>
         searchCalls (fst (handleMem0Click_begin popup c w)) = searchCalls w \<and>
         addCalls (fst (handleMem0Click_begin popup c w)) = addCalls w \<and>
         sendClicks (fst (handleMem0Click_begin popup c w)) = sendClicks w \<and>
         inputElement (fst (handleMem0Click_begin popup c w)) = inputElement w \<and>
         isProcessingMem0 (fst (handleMem0Click_begin popup c w))"
  using assms
  by (simp add: handleMem0Click_begin_def getMemoryEnabledState_def Let_def)

lemma begin_idle:
  assumes "\<not> isProcessingMem0 w"
  shows "(\<exists>p. snd (handleMem0Click_begin popup c w) = Awaiting p \<and>
            isProcessingMem0 (fst (handleMem0Click_begin popup c w)) \<and>
            length (searchCalls (fst (handleMem0Click_begin popup c w))) = length (searchCalls w) + 1) \<or>
         ((snd (handleMem0Click_begin popup c w) = Returned \<or>
           snd (handleMem0Click_begin popup c w) = Threw) \<and>
            \<not> isProcessingMem0 (fst (handleMem0Click_begin popup c w)) \<and>
            searchCalls (fst (handleMem0Click_begin popup c w)) = searchCalls w)"
  using assms
  by (auto simp: handleMem0Click_begin_def getMemoryEnabledState_def Let_def split: option.splits)

lemma caller_catch_fields [simp]:
  "inputElement (caller_catch t out w) = inputElement w"
  "isProcessingMem0 (caller_catch t out w) = isProcessingMem0 w"
  "searchCalls (caller_catch t out w) = searchCalls w"
  "addCalls (caller_catch t out w) = addCalls w"
  "sendClicks (caller_catch t out w) = sendClicks w"
  by (simp_all add: caller_catch_def split: outcome.splits)

lemma capture_flag_set:
  assumes "isProcessingMem0 (world s)"
  shows "searchCalls (world (chatgpt_capture t s)) = searchCalls (world s) \<and>
         addCalls (world (chatgpt_capture t s)) = addCalls (world s) \<and>
         sendClicks (world (chatgpt_capture t s)) = sendClicks (world s) \<and>
         inputElement (world (chatgpt_capture t s)) = inputElement (world s) \<and>
         pending (chatgpt_capture t s) = pending s \<and>
         isProcessingMem0 (world (chatgpt_capture t s))"
  using begin_flag_set [OF assms, of "t = ByButton" "t \<noteq> ByButton"]
  by (auto simp: chatgpt_capture_def split: prod.splits)

lemma capture_idle:
  assumes "\<not> isProcessingMem0 (world s)"
  shows "(isProcessingMem0 (world (chatgpt_capture t s)) \<and>
          (\<exists>x. pending (chatgpt_capture t s) = pending s @ [x]) \<and>
          length (searchCalls (world (chatgpt_capture t s))) = length (searchCalls (world s)) + 1) \<or>
         (\<not> isProcessingMem0 (world (chatgpt_capture t s)) \<and>
          pending (chatgpt_capture t s) = pending s \<and>
          searchCalls (world (chatgpt_capture t s)) = searchCalls (world s))"
  using begin_idle [OF assms, of "t = ByButton" "t \<noteq> ByButton"]
  by (auto simp: chatgpt_capture_def split: prod.splits)

lemma step_flag_set:
  assumes "isProcessingMem0 (world s)" "\<not> settles e"
  shows "searchCalls (world (chatgpt_step T s e)) = searchCalls (world s) \<and>
         addCalls (world (chatgpt_step T s e)) = addCalls (world s) \<and>
         sendClicks (world (chatgpt_step T s e)) = sendClicks (world s) \<and>
         pending (chatgpt_step T s e) = pending s \<and>
         isProcessingMem0 (world (chatgpt_step T s e))"
  using assms capture_flag_set [OF assms(1)]
  by (cases e) (simp_all add: getMemoryEnabledState_def)

lemma step_idle:
  assumes "\<not> isProcessingMem0 (world s)" "\<not> settles e"
  shows "(isProcessingMem0 (world (chatgpt_step T s e)) \<and>
          length (searchCalls (world (chatgpt_step T s e))) = length (searchCalls (world s)) + 1) \<or>
         (\<not> isProcessingMem0 (world (chatgpt_step T s e)) \<and>
          searchCalls (world (chatgpt_step T s e)) = searchCalls (world s))"
proof (cases e)
  case (EnterKey x)
  then show ?thesis using assms capture_idle [OF assms(1), of ByEnter]
    by (auto simp: getMemoryEnabledState_def)
next
  case CtrlM
  then show ?thesis using assms capture_idle [OF assms(1), of ByCtrlM] by auto
next
  case Mem0ButtonClick
  then show ?thesis using assms capture_idle [OF assms(1), of ByButton] by auto
next
  case (SearchSettled i r)
  then show ?thesis using assms by simp
next
  case (HostInput el)
  then show ?thesis using assms by simp
qed

lemma run_Cons: "chatgpt_run T s (e # evs) = chatgpt_run T (chatgpt_step T s e) evs"
  by (simp add: chatgpt_run_def)

lemma run_Nil: "chatgpt_run T s [] = s"
  by (simp add: chatgpt_run_def)

lemma run_flag_set:
  assumes "list_all (\<lambda>e. \<not> settles e) evs" "isProcessingMem0 (world s)"
  shows "searchCalls (world (chatgpt_run T s evs)) = searchCalls (world s) \<and>
         addCalls (world (chatgpt_run T s evs)) = addCalls (world s) \<and>
         sendClicks (world (chatgpt_run T s evs)) = sendClicks (world s) \<and>
         pending (chatgpt_run T s evs) = pending s \<and>
         isProcessingMem0 (world (chatgpt_run T s evs))"
  using assms
proof (induction evs arbitrary: s)
  case Nil
  then show ?case by (simp add: run_Nil)
next
  case (Cons e evs)
  have e: "\<not> settles e" and r: "list_all (\<lambda>e. \<not> settles e) evs" using Cons.prems(1) by simp_all
  have st: "searchCalls (world (chatgpt_step T s e)) = searchCalls (world s) \<and>
         addCalls (world (chatgpt_step T s e)) = addCalls (world s) \<and>
         sendClicks (world (chatgpt_step T s e)) = sendClicks (world s) \<and>
         pending (chatgpt_step T s e) = pending s \<and>
         isProcessingMem0 (world (chatgpt_step T s e))"
    using step_flag_set [OF Cons.prems(2) e] .
  then have "isProcessingMem0 (world (chatgpt_step T s e))" by simp
  from Cons.IH [OF r this] st show ?case by (simp add: run_Cons)
qed

lemma run_idle:
  assumes "list_all (\<lambda>e. \<not> settles e) evs" "\<not> isProcessingMem0 (world s)"
  shows "length (searchCalls (world (chatgpt_run T s evs))) \<le> length (searchCalls (world s)) + 1"
  using assms
proof (induction evs arbitrary: s)
  case Nil
  then show ?case by (simp add: run_Nil)
next
  case (Cons e evs)
  have e: "\<not> settles e" and r: "list_all (\<lambda>e. \<not> settles e) evs" using Cons.prems(1) by simp_all
  from step_idle [OF Cons.prems(2) e, of T] show ?case
  proof
    assume a: "isProcessingMem0 (world (chatgpt_step T s e)) \<and>
          length (searchCalls (world (chatgpt_step T s e))) = length (searchCalls (world s)) + 1"
    then have "searchCalls (world (chatgpt_run T (chatgpt_step T s e) evs)) =
        searchCalls (world (chatgpt_step T s e))"
      using run_flag_set [OF r] by blast
    then show ?thesis using a by (simp add: run_Cons)
  next
    assume a: "\<not> isProcessingMem0 (world (chatgpt_step T s e)) \<and>
          searchCalls (world (chatgpt_step T s e)) = searchCalls (world s)"
    then have "length (searchCalls (world (chatgpt_run T (chatgpt_step T s e) evs))) \<le>
        length (searchCalls (world (chatgpt_step T s e))) + 1"
      using Cons.IH [OF r] by blast
    then show ?thesis using a by (simp add: run_Cons)
  qed
qed

lemma resume_flag: "\<not> isProcessingMem0 (fst (handleMem0Click_resume T p r w))"
  by (simp add: handleMem0Click_resume_def Let_def split: fetch_result.splits option.splits)

lemma step_one_cycle:
  assumes "one_cycle s"
  shows "one_cycle (chatgpt_step T s e)"
proof (cases "settles e")
  case True
  then obtain i r where e: "e = SearchSettled i r" by (cases e) auto
  show ?thesis
  proof (cases "i < length (pending s)")
    case True
    then have i: "i = 0" "length (pending s) = 1" using assms by (auto simp: one_cycle_def)
    then obtain x where x: "pending s = [x]" by (cases "pending s") auto
    show ?thesis using e x i resume_flag
      by (auto simp: one_cycle_def split: prod.splits) (metis fst_conv)
  next
    case False
    then show ?thesis using e assms by simp
  qed
next
  case False
  show ?thesis
  proof (cases "isProcessingMem0 (world s)")
    case True
    then show ?thesis using step_flag_set [OF True False, of T] assms by (simp add: one_cycle_def)
  next
    case idle: False
    then have p: "pending s = []" using assms by (simp add: one_cycle_def)
    show ?thesis
    proof (cases e)
      case (EnterKey x)
      then show ?thesis using assms p idle capture_idle [OF idle, of ByEnter]
        by (auto simp: one_cycle_def getMemoryEnabledState_def)
    next
      case CtrlM
      then show ?thesis using assms p idle capture_idle [OF idle, of ByCtrlM]
        by (auto simp: one_cycle_def)
    next
      case Mem0ButtonClick
      then show ?thesis using assms p idle capture_idle [OF idle, of ByButton]
        by (auto simp: one_cycle_def)
    next
      case (SearchSettled i r)
      then show ?thesis using False by simp
    next
      case (HostInput el)
      then show ?thesis using assms by (simp add: one_cycle_def)
    qed
  qed
qed

lemma run_one_cycle: "one_cycle s \<Longrightarrow> one_cycle (chatgpt_run T s evs)"
  by (induction evs arbitrary: s) (simp_all add: run_Nil run_Cons step_one_cycle)

lemma occ_skip_nl: "occurrences memoryPrefix (CHR ''\<newline>'' # x) = occurrences memoryPrefix x"
  using occ_nl [of "[]" x] by (simp add: memoryPrefix_not_Nil)

lemma not_prefix_dash: "\<not> prefix memoryPrefix (CHR ''-'' # x)"
  using prefix_hd [of memoryPrefix "CHR ''-'' # x"] memoryPrefix_not_Nil
  by (auto simp: memoryPrefix_def)

lemma not_prefix_space: "\<not> prefix memoryPrefix (CHR '' '' # x)"
  using prefix_hd [of memoryPrefix "CHR '' '' # x"] memoryPrefix_not_Nil
  by (auto simp: memoryPrefix_def)

lemma occ_bullet: "occurrences memoryPrefix (''- '' @ m) = occurrences memoryPrefix m"
  by (simp add: not_prefix_dash not_prefix_space)

lemma occ_plain_bullets:
  assumes "\<forall>m\<in>set ms. indexOf m memoryPrefix = None"
  shows "occurrences memoryPrefix (concat (map (\<lambda>m. ''- '' @ m @ ''\<newline>'') ms) @ ''- '' @ m') =
         occurrences memoryPrefix m'"
  using assms
proof (induction ms)
  case Nil
  then show ?case using occ_bullet by simp
next
  case (Cons m ms)
  have m0: "occurrences memoryPrefix m = 0"
    using Cons.prems by (simp add: occurrences_zero_iff memoryPrefix_not_Nil)
  have "concat (map (\<lambda>m. ''- '' @ m @ ''\<newline>'') (m # ms)) @ ''- '' @ m' =
        (''- '' @ m) @ CHR ''\<newline>'' # (concat (map (\<lambda>m. ''- '' @ m @ ''\<newline>'') ms) @ ''- '' @ m')"
    by simp
  then have "occurrences memoryPrefix (concat (map (\<lambda>m. ''- '' @ m @ ''\<newline>'') (m # ms)) @ ''- '' @ m') =
        occurrences memoryPrefix (''- '' @ m) +
        occurrences memoryPrefix (concat (map (\<lambda>m. ''- '' @ m @ ''\<newline>'') ms) @ ''- '' @ m')"
    by (simp only: occ_nl)
  then show ?case using Cons m0 occ_bullet by simp
qed

lemma occ_plain_block:
  assumes "\<forall>m\<in>set memories. indexOf m memoryPrefix = None" "memories \<noteq> []"
  shows "occurrences memoryPrefix (a @ plain_memoriesContent memories) = occurrences memoryPrefix a + 1"
proof -
  have l: "occurrences memoryPrefix (last memories) = 0"
    using assms by (simp add: occurrences_zero_iff memoryPrefix_not_Nil)
  have b: "\<forall>m\<in>set (butlast memories). indexOf m memoryPrefix = None"
    using assms(1) by (meson in_set_butlastD)
  have "a @ plain_memoriesContent memories =
      a @ CHR ''\<newline>'' # (CHR ''\<newline>'' # (memoryPrefix @ CHR ''\<newline>'' #
        (concat (map (\<lambda>m. ''- '' @ m @ ''\<newline>'') (butlast memories)) @ ''- '' @ last memories)))"
    using assms(2) by (simp add: plain_memoriesContent_closed)
  then have "occurrences memoryPrefix (a @ plain_memoriesContent memories) =
      occurrences memoryPrefix a + (occurrences memoryPrefix memoryPrefix +
        occurrences memoryPrefix
          (concat (map (\<lambda>m. ''- '' @ m @ ''\<newline>'') (butlast memories)) @ ''- '' @ last memories))"
    by (simp only: occ_nl occ_skip_nl)
  then show ?thesis
    using occ_plain_bullets [OF b, of "last memories"] l occurrences_memoryPrefix_self by simp
qed

lemma chatgpt_block_count:
  assumes "ok status" "inputElement w = Some el"
    and "\<forall>m\<in>set (chatgpt_memories rd). indexOf m memoryPrefix = None"
    and "handleMem0Click_begin popup clickSendButton w0 = (w1, Awaiting p)"
  shows "occurrences memoryPrefix
           (input_content (the (inputElement
              (fst (handleMem0Click_resume html_text p (Response status (Some rd)) w))))) =
         (if chatgpt_memories rd = [] then 0 else 1)"
proof (cases "chatgpt_memories rd = []")
  case True
  have "occurrences memoryPrefix (p_message p) = 0"
    using assms(4) by (rule begin_message_clean(2))
  then show ?thesis
    using True resume_inputElement_empty [OF assms(1,2) True, of html_text p]
    by (simp add: restoreMessage_def input_content_def split: input_element.splits)
next
  case False
  have b: "occurrences memoryPrefix (chatgpt_memoriesContent (chatgpt_memories rd)) = 1"
    using assms(3) by (rule occ_block)
  have "occurrences memoryPrefix (input_content (injectMemories html_text el (chatgpt_memories rd))) = 1"
  proof (cases el)
    case (Div h t)
    have "chatgpt_currentContent h @ ''<div><br></div>'' @ chatgpt_memoriesContent (chatgpt_memories rd)
        = chatgpt_currentContent h @ CHR ''<'' # (''div'' @ CHR ''>'' # (''<br'' @ CHR ''>'' #
            (''</div'' @ CHR ''>'' # chatgpt_memoriesContent (chatgpt_memories rd))))"
      by simp
    moreover have "occurrences memoryPrefix ''div'' = 0" "occurrences memoryPrefix ''<br'' = 0"
      "occurrences memoryPrefix ''</div'' = 0"
      unfolding memoryPrefix_def by code_simp+
    ultimately have "occurrences memoryPrefix
        (chatgpt_currentContent h @ ''<div><br></div>'' @ chatgpt_memoriesContent (chatgpt_memories rd)) = 1"
      using b occ_currentContent [of h] by (simp only: occ_gt occ_lt)
    then show ?thesis using Div by (simp add: injectMemories_def input_content_def Let_def)
  next
    case (Textarea t v)
    have "occurrences memoryPrefix
        (chatgpt_currentContent v @ CHR ''\<newline>'' # chatgpt_memoriesContent (chatgpt_memories rd)) = 1"
      using b occ_currentContent [of v] by (simp only: occ_nl)
    then show ?thesis using Textarea by (simp add: injectMemories_def input_content_def)
  qed
  then show ?thesis
    using False resume_inputElement_memories [OF assms(1,2) False, of html_text p] by simp
qed

lemma enter_always_searches:
  assumes "key event = ''Enter''" "\<not> shiftKey event" "\<not> isComposing event"
    and "textarea pw = Some ta" "focused ta" "trim (ta_value ta) \<noteq> []"
    and "truthy (apiKey (storage pw)) \<or> truthy (access_token (storage pw))"
    and "memory_enabled (storage pw) \<noteq> Some False"
  shows "length (page_searchCalls (fst (handleEnterKey event pw))) = length (page_searchCalls pw) + 1"
  using assms
  by (auto simp: handleEnterKey_def handleMem0Processing_begin_def Let_def)

lemma length_trim: "length (trim s) \<le> length s"
proof -
  obtain n k where "trim s = take n (drop k s)" using trim_sub by blast
  then show ?thesis by simp
qed

lemma trim_same_length: "length (trim s) = length s \<Longrightarrow> trim s = s"
proof -
  assume a: "length (trim s) = length s"
  obtain n k where t: "trim s = take n (drop k s)" using trim_sub by blast
  have "length (take n (drop k s)) = length s" using a t by simp
  then have "min (length s - k) n = length s" by simp
  then have "k = 0 \<or> length s = 0" "length s \<le> n" by arith+
  then show ?thesis using t by auto
qed

lemma length_replace_memInfoRegex: "length (replace_memInfoRegex s) \<le> length s"
  by (induction s) auto

lemma replace_same_length: "length (replace_memInfoRegex s) = length s \<Longrightarrow> no_memInfo s"
proof -
  assume a: "length (replace_memInfoRegex s) = length s"
  obtain n where "replace_memInfoRegex s = take n s" using replace_is_take by blast
  then have "replace_memInfoRegex s = s" using a by (metis length_take min_def take_all order_refl)
  then show ?thesis by (simp add: replace_id_iff)
qed

lemma length_replace_lastParagraphRegex: "length (replace_lastParagraphRegex s) \<le> length s"
  by (simp add: replace_lastParagraphRegex_def)

lemma lastParagraph_same_length:
  "length (replace_lastParagraphRegex s) = length s \<Longrightarrow> \<not> suffix lastParagraph s"
proof
  assume a: "length (replace_lastParagraphRegex s) = length s" and b: "suffix lastParagraph s"
  have "length lastParagraph \<le> length s" using b by (rule suffix_length_le)
  moreover have "0 < length lastParagraph" by (simp add: lastParagraph_def)
  ultimately have "length s - length lastParagraph < length s" by arith
  moreover have "length (replace_lastParagraphRegex s) = length s - length lastParagraph"
    using b by (simp add: replace_lastParagraphRegex_def)
  ultimately show False using a by simp
qed

lemma chatgpt_currentContent_fixed:
  "chatgpt_currentContent c = c \<longleftrightarrow>
     trim c = c \<and> indexOf c memoryPrefix = None \<and> \<not> suffix lastParagraph c"
proof
  assume "trim c = c \<and> indexOf c memoryPrefix = None \<and> \<not> suffix lastParagraph c"
  then show "chatgpt_currentContent c = c"
    by (simp add: chatgpt_currentContent_clean no_memInfo_iff_indexOf)
next
  assume a: "chatgpt_currentContent c = c"
  let ?r = "replace_memInfoRegex c"
  let ?t = "trim ?r"
  let ?l = "replace_lastParagraphRegex ?t"
  have "length c = length (trim ?l)" using a by (simp add: chatgpt_currentContent_def)
  moreover have "length (trim ?l) \<le> length ?l" by (rule length_trim)
  moreover have "length ?l \<le> length ?t" by (rule length_replace_lastParagraphRegex)
  moreover have "length ?t \<le> length ?r" by (rule length_trim)
  moreover have "length ?r \<le> length c" by (rule length_replace_memInfoRegex)
  ultimately have e: "length ?r = length c" "length ?t = length ?r" "length ?l = length ?t"
    by simp_all
  have n: "no_memInfo c" using e(1) by (rule replace_same_length)
  then have r: "?r = c" by (simp add: replace_id_iff)
  have t: "?t = ?r" using e(2) by (rule trim_same_length)
  have "\<not> suffix lastParagraph ?t" using e(3) by (rule lastParagraph_same_length)
  then show "trim c = c \<and> indexOf c memoryPrefix = None \<and> \<not> suffix lastParagraph c"
    using n r t by (simp add: no_memInfo_iff_indexOf)
qed

lemma handleEnterKey_captures:
  assumes "textarea pw0 = Some ta0" "handleEnterKey event pw0 = (pw1, prevented, Awaiting q)"
  shows "q_message q = trim (ta_value ta0)" "q_capturedText q = trim (ta_value ta0)"
  using assms
  by (auto simp: handleEnterKey_def handleMem0Processing_begin_def Let_def
      split: if_splits prod.splits)







section \<open>The claims\<close>

text \<open>
  C1, as amended. In the ChatGPT script the flag \<^verbatim>\<open>isProcessingMem0\<close> guards the cycle.
  While it is set, any run of captures (Enter, Ctrl+M, a click on the Mem0 button) and page
  edits during which no search settles sends no search request, no add request and no
  click, leaves the pending searches as they are and leaves the flag set. From a page
  whose flag is clear, such a run sends at most one search request. And from an idle page
  (flag clear, nothing pending), after any run of events at most one search is pending,
  and the flag is set exactly while one is. Perplexity and Grok have no flag: every Enter
  (without Shift, not composing) on the focused textarea whose trimmed text is not empty,
  with a stored credential and memory not disabled, sends a search request, whatever is
  pending.
\<close>

theorem chatgpt_reentrancy_guard:
  "(list_all (\<lambda>e. \<not> settles e) evs \<and> isProcessingMem0 (world s) \<longrightarrow>
      searchCalls (world (chatgpt_run html_text s evs)) = searchCalls (world s) \<and>
      addCalls (world (chatgpt_run html_text s evs)) = addCalls (world s) \<and>
      sendClicks (world (chatgpt_run html_text s evs)) = sendClicks (world s) \<and>
      pending (chatgpt_run html_text s evs) = pending s \<and>
      isProcessingMem0 (world (chatgpt_run html_text s evs))) \<and>
   (list_all (\<lambda>e. \<not> settles e) evs \<and> \<not> isProcessingMem0 (world s) \<longrightarrow>
      length (searchCalls (world (chatgpt_run html_text s evs))) \<le> length (searchCalls (world s)) + 1) \<and>
   (\<not> isProcessingMem0 (world s) \<and> pending s = [] \<longrightarrow>
      length (pending (chatgpt_run html_text s evs)) \<le> 1 \<and>
      (isProcessingMem0 (world (chatgpt_run html_text s evs)) \<longleftrightarrow>
         pending (chatgpt_run html_text s evs) \<noteq> [])) \<and>
   (key event = ''Enter'' \<and> \<not> shiftKey event \<and> \<not> isComposing event \<and>
    textarea pw = Some ta \<and> focused ta \<and> trim (ta_value ta) \<noteq> [] \<and>
    (truthy (apiKey (storage pw)) \<or> truthy (access_token (storage pw))) \<and>
    memory_enabled (storage pw) \<noteq> Some False \<longrightarrow>
      length (page_searchCalls (fst (handleEnterKey event pw))) = length (page_searchCalls pw) + 1)"
proof (intro conjI impI)
  assume "list_all (\<lambda>e. \<not> settles e) evs \<and> isProcessingMem0 (world s)"
  then have a: "list_all (\<lambda>e. \<not> settles e) evs" "isProcessingMem0 (world s)" by simp_all
  from run_flag_set [OF a, of html_text]
  show "searchCalls (world (chatgpt_run html_text s evs)) = searchCalls (world s)"
    and "addCalls (world (chatgpt_run html_text s evs)) = addCalls (world s)"
    and "sendClicks (world (chatgpt_run html_text s evs)) = sendClicks (world s)"
    and "pending (chatgpt_run html_text s evs) = pending s"
    and "isProcessingMem0 (world (chatgpt_run html_text s evs))"
    by simp_all
next
  assume "list_all (\<lambda>e. \<not> settles e) evs \<and> \<not> isProcessingMem0 (world s)"
  then show "length (searchCalls (world (chatgpt_run html_text s evs))) \<le> length (searchCalls (world s)) + 1"
    using run_idle by blast
next
  assume "\<not> isProcessingMem0 (world s) \<and> pending s = []"
  then have "one_cycle s" by (simp add: one_cycle_def)
  then have o: "one_cycle (chatgpt_run html_text s evs)" by (rule run_one_cycle)
  then show "length (pending (chatgpt_run html_text s evs)) \<le> 1" by (simp add: one_cycle_def)
  from o show "isProcessingMem0 (world (chatgpt_run html_text s evs)) \<longleftrightarrow>
         pending (chatgpt_run html_text s evs) \<noteq> []" by (simp add: one_cycle_def)
next
  assume "key event = ''Enter'' \<and> \<not> shiftKey event \<and> \<not> isComposing event \<and>
    textarea pw = Some ta \<and> focused ta \<and> trim (ta_value ta) \<noteq> [] \<and>
    (truthy (apiKey (storage pw)) \<or> truthy (access_token (storage pw))) \<and>
    memory_enabled (storage pw) \<noteq> Some False"
  then show "length (page_searchCalls (fst (handleEnterKey event pw))) = length (page_searchCalls pw) + 1"
    using enter_always_searches [of event pw ta] by blast
qed

text \<open>
  Enter pressed twice on an idle ChatGPT page with the draft \<open>hi\<close>: exactly one search
  request is sent and one search is pending; the second Enter adds nothing. The same on
  Perplexity or Grok: two search requests.
\<close>

theorem chatgpt_reentrancy_guard_witness:
  "list_all (\<lambda>e. \<not> settles e) [EnterKey False, EnterKey False] \<and>
   \<not> isProcessingMem0 (world (chatgpt_idle (Some (Textarea [] ''hi'')))) \<and>
   length (searchCalls (world (chatgpt_run (\<lambda>h. h) (chatgpt_idle (Some (Textarea [] ''hi'')))
      [EnterKey False, EnterKey False]))) = 1 \<and>
   length (pending (chatgpt_run (\<lambda>h. h) (chatgpt_idle (Some (Textarea [] ''hi'')))
      [EnterKey False, EnterKey False])) = 1 \<and>
   isProcessingMem0 (world (chatgpt_step (\<lambda>h. h) (chatgpt_idle (Some (Textarea [] ''hi''))) (EnterKey False))) \<and>
   searchCalls (world (chatgpt_run (\<lambda>h. h)
       (chatgpt_step (\<lambda>h. h) (chatgpt_idle (Some (Textarea [] ''hi''))) (EnterKey False))
       [EnterKey False])) =
     searchCalls (world (chatgpt_step (\<lambda>h. h) (chatgpt_idle (Some (Textarea [] ''hi''))) (EnterKey False))) \<and>
   length (page_searchCalls (fst (handleEnterKey enter_event
       (fst (handleEnterKey enter_event (page (page_idle ''hi'' (Some ''k'') True))))))) = 2"
proof -
  let ?s = "chatgpt_idle (Some (Textarea [] ''hi''))"
  let ?s1 = "chatgpt_step (\<lambda>h. h) ?s (EnterKey False)"
  let ?pw = "page (page_idle ''hi'' (Some ''k'') True)"
  let ?pw1 = "fst (handleEnterKey enter_event ?pw)"
  let ?ta = "\<lparr>ta_value = ''hi'', focused = True\<rparr>"
  have n: "list_all (\<lambda>e. \<not> settles e) [EnterKey False, EnterKey False]" by simp
  have n1: "list_all (\<lambda>e. \<not> settles e) [EnterKey False]" by simp
  have i: "\<not> isProcessingMem0 (world ?s)" "pending ?s = []" by (simp_all add: chatgpt_idle_def)
  have f: "isProcessingMem0 (world ?s1)" by code_simp
  have l: "length (searchCalls (world (chatgpt_run (\<lambda>h. h) ?s [EnterKey False, EnterKey False]))) \<ge> 1"
    by code_simp
  have p: "pending (chatgpt_run (\<lambda>h. h) ?s [EnterKey False, EnterKey False]) \<noteq> []"
    by code_simp
  have u: "length (searchCalls (world ?s)) = 0" by (simp add: chatgpt_idle_def)
  have t: "trim ''hi'' \<noteq> []" by code_simp
  have e: "key enter_event = ''Enter'' \<and> \<not> shiftKey enter_event \<and> \<not> isComposing enter_event"
    by (simp add: enter_event_def)
  have c0: "textarea ?pw = Some ?ta \<and> focused ?ta \<and> trim (ta_value ?ta) \<noteq> [] \<and>
      (truthy (apiKey (storage ?pw)) \<or> truthy (access_token (storage ?pw))) \<and>
      memory_enabled (storage ?pw) \<noteq> Some False \<and> page_searchCalls ?pw = []"
    using t by (simp add: page_idle_def truthy_def)
  have c1: "textarea ?pw1 = Some ?ta \<and>
      (truthy (apiKey (storage ?pw1)) \<or> truthy (access_token (storage ?pw1))) \<and>
      memory_enabled (storage ?pw1) \<noteq> Some False"
    by code_simp
  have a: "length (page_searchCalls ?pw1) = 1"
    using chatgpt_reentrancy_guard [where event = enter_event and pw = ?pw and ta = ?ta,
        THEN conjunct2, THEN conjunct2, THEN conjunct2] e c0
    by simp
  have b: "length (page_searchCalls (fst (handleEnterKey enter_event ?pw1))) =
      length (page_searchCalls ?pw1) + 1"
    using chatgpt_reentrancy_guard [where event = enter_event and pw = ?pw1 and ta = ?ta,
        THEN conjunct2, THEN conjunct2, THEN conjunct2] e c0 c1
    by blast
  note G = chatgpt_reentrancy_guard [where evs = "[EnterKey False, EnterKey False]" and s = ?s
      and html_text = "\<lambda>h. h"]
  note H = chatgpt_reentrancy_guard [where evs = "[EnterKey False]" and s = ?s1
      and html_text = "\<lambda>h. h"]
  have g1: "length (searchCalls (world (chatgpt_run (\<lambda>h. h) ?s [EnterKey False, EnterKey False]))) \<le> 1"
    using G [THEN conjunct2, THEN conjunct1] n i(1) u by simp
  have g2: "length (pending (chatgpt_run (\<lambda>h. h) ?s [EnterKey False, EnterKey False])) \<le> 1"
    using G [THEN conjunct2, THEN conjunct2, THEN conjunct1] i by simp
  have g3: "searchCalls (world (chatgpt_run (\<lambda>h. h) ?s1 [EnterKey False])) = searchCalls (world ?s1)"
    using H [THEN conjunct1] n1 f by simp
  have g: "length (searchCalls (world (chatgpt_run (\<lambda>h. h) ?s [EnterKey False, EnterKey False]))) = 1 \<and>
      length (pending (chatgpt_run (\<lambda>h. h) ?s [EnterKey False, EnterKey False])) = 1"
    using g1 g2 l p by (cases "pending (chatgpt_run (\<lambda>h. h) ?s [EnterKey False, EnterKey False])") auto
  show ?thesis using n i(1) f g g3 a b by simp
qed

text \<open>
  C1 as stated fails on Perplexity and on Grok, which have no flag: Enter pressed twice
  before the first search settles sends two search requests.
\<close>

theorem reentrancy_counterexample:
  "length (page_searchCalls (page (perplexity_run (page_idle ''hi'' (Some ''k'') True)
      [KeyDown enter_event, KeyDown enter_event]))) = 2 \<and>
   length (page_pendings (perplexity_run (page_idle ''hi'' (Some ''k'') True)
      [KeyDown enter_event, KeyDown enter_event])) = 2 \<and>
   length (page_searchCalls (page (grok_run (page_idle ''hi'' (Some ''k'') True)
      [KeyDown enter_event, KeyDown enter_event]))) = 2"
  by code_simp

text \<open>
  C2, as amended. When the search fails (the request is rejected, the status is not 2xx,
  or the body does not parse), no script clicks the send button or sends an add request.
  ChatGPT runs its \<^verbatim>\<open>catch\<close> block and throws again: the input element is left as it is
  and the flag is cleared. Perplexity writes the captured message back into the textarea
  (when it is not empty). Grok only logs the error.
\<close>

theorem search_failure_no_release:
  assumes "search_failed r"
  shows "snd (handleMem0Click_resume html_text p r w) = Threw \<and>
         fst (handleMem0Click_resume html_text p r w) = handleMem0Click_catch (p_popup p) w \<and>
         inputElement (handleMem0Click_catch (p_popup p) w) = inputElement w \<and>
         sendClicks (handleMem0Click_catch (p_popup p) w) = sendClicks w \<and>
         addCalls (handleMem0Click_catch (p_popup p) w) = addCalls w \<and>
         \<not> isProcessingMem0 (handleMem0Click_catch (p_popup p) w) \<and>
         textarea (perplexity_resume q r pw) =
           (if q_message q \<noteq> [] then map_option (\<lambda>ta. ta\<lparr>ta_value := q_message q\<rparr>) (textarea pw)
            else textarea pw) \<and>
         clickTimers (perplexity_resume q r pw) = clickTimers pw \<and>
         page_addCalls (perplexity_resume q r pw) = page_addCalls pw \<and>
         grok_resume q r pw = pw\<lparr>page_consoleErrors := page_consoleErrors pw @ [''Error:'']\<rparr>"
  using assms
  by (auto simp: search_failed_def handleMem0Click_resume_def perplexity_resume_def
      perplexity_catch_def grok_resume_def grok_catch_def page_console_error_def Let_def
      split: fetch_result.splits option.splits)

text \<open>
  A search answered with status 500: ChatGPT sets no click and sends no add request,
  Perplexity puts the captured \<open>hi\<close> back in place of what the textarea held, and neither
  Perplexity nor Grok sets a timer.
\<close>

theorem search_failure_no_release_witness:
  "search_failed (Response 500 None) \<and>
   sendClicks (fst (handleMem0Click_resume (\<lambda>h. h) hi_chat_pending (Response 500 None)
      (world (chatgpt_idle (Some (Textarea [] ''hi'')))))) = 0 \<and>
   addCalls (fst (handleMem0Click_resume (\<lambda>h. h) hi_chat_pending (Response 500 None)
      (world (chatgpt_idle (Some (Textarea [] ''hi'')))))) = [] \<and>
   textarea (perplexity_resume hi_pending (Response 500 None)
      (page (page_idle ''hi there'' (Some ''k'') True))) = Some \<lparr>ta_value = ''hi'', focused = True\<rparr> \<and>
   clickTimers (perplexity_resume hi_pending (Response 500 None)
      (page (page_idle ''hi there'' (Some ''k'') True))) = 0 \<and>
   clickTimers (grok_resume hi_pending (Response 500 None)
      (page (page_idle ''hi there'' (Some ''k'') True))) = 0"
proof -
  have f: "search_failed (Response 500 None)" by (simp add: search_failed_def)
  show ?thesis
    using f search_failure_no_release [OF f, where html_text = "\<lambda>h. h"
      and p = hi_chat_pending and w = "world (chatgpt_idle (Some (Textarea [] ''hi'')))"
      and q = hi_pending and pw = "page (page_idle ''hi there'' (Some ''k'') True)"]
    by (simp add: chatgpt_idle_def page_idle_def hi_pending_def)
qed

text \<open>
  C2 as stated fails: after Enter and a failed search the submission is not released.
  No click on the send button is set by ChatGPT, and on Perplexity and Grok no timer is
  left to fire and no click is made.
\<close>

theorem search_failure_counterexample:
  "sendClicks (world (chatgpt_run (\<lambda>h. h) (chatgpt_idle (Some (Textarea [] ''hi'')))
      [EnterKey False, SearchSettled 0 NetworkError])) = 0 \<and>
   pending (chatgpt_run (\<lambda>h. h) (chatgpt_idle (Some (Textarea [] ''hi'')))
      [EnterKey False, SearchSettled 0 NetworkError]) = [] \<and>
   page_sendClicks (page (perplexity_run (page_idle ''hi'' (Some ''k'') True)
      [KeyDown enter_event, PageSearchSettled 0 (Response 500 None), TimerFires])) = 0 \<and>
   page_pendings (perplexity_run (page_idle ''hi'' (Some ''k'') True)
      [KeyDown enter_event, PageSearchSettled 0 (Response 500 None), TimerFires]) = [] \<and>
   page_sendClicks (page (grok_run (page_idle ''hi'' (Some ''k'') True)
      [KeyDown enter_event, PageSearchSettled 0 (Response 500 None), TimerFires])) = 0"
  by code_simp

text \<open>
  C3, as amended. For every original message that is trimmed and does not contain the
  marker phrase, and every list of memories, the plain-text composition of Perplexity and
  Grok (the original, two line feeds, the preamble, the bullets) is stripped back to the
  original exactly: by the \<^verbatim>\<open>indexOf\<close> strip of Grok, and by the regular-expression strip of
  ChatGPT when the original also has no \<^verbatim>\<open></p>\<close>. The same holds for any content made of
  the original, a run of white space, the preamble and anything after it, wherever the
  marker then stands.
\<close>

theorem strip_recovers_plain_composition:
  assumes "trim original = original" "indexOf original memoryPrefix = None"
  shows "grok_lastInputValue (original @ plain_memoriesContent memories) = original \<and>
         (indexOf original ''</p>'' = None \<longrightarrow>
            chatgpt_message (original @ plain_memoriesContent memories) = original) \<and>
         (list_all isJsSpace ws \<longrightarrow>
            grok_lastInputValue (original @ ws @ memoryPrefix @ rest) = original \<and>
            (indexOf original ''</p>'' = None \<longrightarrow>
               chatgpt_message (original @ ws @ memoryPrefix @ rest) = original))"
proof -
  have nm: "no_memInfo original" using assms(2) by (simp add: no_memInfo_iff_indexOf)
  obtain r where r: "plain_memoriesContent memories = ''\<newline>\<newline>'' @ memoryPrefix @ r"
    using plain_memoriesContent_form by blast
  have ws2: "list_all isJsSpace ''\<newline>\<newline>''" by (simp add: isJsSpace_def)
  have a: "grok_lastInputValue (original @ plain_memoriesContent memories) = original"
    unfolding r using grok_lastInputValue_recovers [OF assms(1) nm ws2, of r] by simp
  have b: "chatgpt_message (original @ plain_memoriesContent memories) = original"
    if "indexOf original ''</p>'' = None"
    unfolding r using chatgpt_message_recovers [OF assms(1) nm that ws2, of r] by simp
  show ?thesis
    using a b grok_lastInputValue_recovers [OF assms(1) nm] chatgpt_message_recovers [OF assms(1) nm]
    by blast
qed

text \<open>
  The scenario of the specification: \<open>I love Python\<close> composed with the memory
  \<open>Loves FastAPI\<close> strips back to \<open>I love Python\<close>.
\<close>

theorem strip_recovers_plain_composition_witness:
  "trim ''I love Python'' = ''I love Python'' \<and> indexOf ''I love Python'' memoryPrefix = None \<and>
   indexOf ''I love Python'' ''</p>'' = None \<and>
   grok_lastInputValue (''I love Python'' @ plain_memoriesContent [''Loves FastAPI'']) = ''I love Python'' \<and>
   chatgpt_message (''I love Python'' @ plain_memoriesContent [''Loves FastAPI'']) = ''I love Python'' \<and>
   chatgpt_message (''I love Python'' @ [] @ memoryPrefix @ ''- Loves FastAPI'') = ''I love Python''"
proof -
  have t: "trim ''I love Python'' = ''I love Python''" by code_simp
  have i: "indexOf ''I love Python'' memoryPrefix = None" by code_simp
  have e: "indexOf ''I love Python'' ''</p>'' = None" by code_simp
  show ?thesis
    using t i e strip_recovers_plain_composition [OF t i, of "[''Loves FastAPI'']" "[]" "''- Loves FastAPI''"]
    by simp
qed

text \<open>
  C3 as stated fails. ChatGPT composes with an HTML block; its strip cuts at the marker
  and leaves the opening tags of the block behind, for a textarea and for a
  contenteditable \<^verbatim>\<open>div\<close>. And an original that itself contains the marker phrase is cut
  at that phrase by any of the strips.
\<close>

theorem strip_compose_counterexample:
  "chatgpt_message (input_content (injectMemories (\<lambda>h. h) (Textarea [] ''hi'') [''a'']))
     = ''hi'' @ ''\<newline>'' @ mem0_wrapper @ ''<strong>'' \<and>
   chatgpt_message (input_content (injectMemories (\<lambda>h. h) (Textarea [] ''hi'') [''a''])) \<noteq> ''hi'' \<and>
   chatgpt_currentContent (input_content (injectMemories (\<lambda>h. h) (Div ''hi'' ''hi'') [''a'']))
     = ''hi<div><br></div>'' @ mem0_wrapper @ ''<strong>'' \<and>
   chatgpt_currentContent (input_content (injectMemories (\<lambda>h. h) (Div ''hi'' ''hi'') [''a''])) \<noteq> ''hi'' \<and>
   grok_lastInputValue ((''see '' @ memoryPrefix) @ plain_memoriesContent [''a'']) = ''see'' \<and>
   grok_lastInputValue ((''see '' @ memoryPrefix) @ plain_memoriesContent [''a'']) \<noteq> ''see '' @ memoryPrefix"
  by code_simp

text \<open>
  C4, as amended. Take a successful search whose memories do not contain the marker phrase.
  ChatGPT: the content written to the input element (by a cycle that \<^verbatim>\<open>handleMem0Click\<close>
  started) holds the marker phrase exactly once when memories were found and not at all
  when none were found, whatever the input held before. Perplexity does not strip: when
  memories were found, the new content holds the phrase once more than the captured
  message does.
\<close>

theorem block_count_after_cycle:
  assumes "ok status" and "\<forall>m\<in>set memories. indexOf m memoryPrefix = None"
  shows
   "(inputElement w = Some el \<and> chatgpt_memories rd = memories \<and>
     handleMem0Click_begin popup clickSendButton w0 = (w1, Awaiting p) \<longrightarrow>
       occurrences memoryPrefix
         (input_content (the (inputElement
            (fst (handleMem0Click_resume html_text p (Response status (Some rd)) w))))) =
       (if memories = [] then 0 else 1)) \<and>
    (textarea pw = Some ta \<and> page_memories rd = Some memories \<and> memories \<noteq> [] \<longrightarrow>
       occurrences memoryPrefix
         (ta_value (the (textarea (perplexity_resume q (Response status (Some rd)) pw)))) =
       occurrences memoryPrefix (q_message q) + 1)"
proof (intro conjI impI)
  assume a: "inputElement w = Some el \<and> chatgpt_memories rd = memories \<and>
     handleMem0Click_begin popup clickSendButton w0 = (w1, Awaiting p)"
  then have m: "\<forall>m\<in>set (chatgpt_memories rd). indexOf m memoryPrefix = None"
    using assms(2) by simp
  from a have e: "inputElement w = Some el"
    and b: "handleMem0Click_begin popup clickSendButton w0 = (w1, Awaiting p)" by simp_all
  show "occurrences memoryPrefix
         (input_content (the (inputElement
            (fst (handleMem0Click_resume html_text p (Response status (Some rd)) w))))) =
       (if memories = [] then 0 else 1)"
    using chatgpt_block_count [OF assms(1) e m b, of html_text] a by simp
next
  assume a: "textarea pw = Some ta \<and> page_memories rd = Some memories \<and> memories \<noteq> []"
  then have "ta_value (the (textarea (perplexity_resume q (Response status (Some rd)) pw))) =
      q_message q @ plain_memoriesContent memories"
    using assms(1) by (simp add: perplexity_resume_def Let_def)
  then show "occurrences memoryPrefix
         (ta_value (the (textarea (perplexity_resume q (Response status (Some rd)) pw)))) =
       occurrences memoryPrefix (q_message q) + 1"
    using a occ_plain_block [OF assms(2)] by simp
qed

text \<open>
  A second cycle on a ChatGPT textarea that still holds the block of the first: the new
  content holds the marker phrase once.
\<close>

theorem block_count_after_cycle_witness:
  "ok 200 \<and>
   snd (handleMem0Click_begin False True chat_html_block) = Awaiting residue_pending \<and>
   occurrences memoryPrefix (input_content (the (inputElement
      (fst (handleMem0Click_resume (\<lambda>h. h) residue_pending (found [''new''])
         (fst (handleMem0Click_begin False True chat_html_block))))))) = 1 \<and>
   occurrences memoryPrefix (ta_value (the (textarea
      (perplexity_resume hi_pending (found [''new'']) (page (page_idle ''hi'' (Some ''k'') True)))))) = 1"
proof -
  let ?w1 = "fst (handleMem0Click_begin False True chat_html_block)"
  have o: "ok 200" by (simp add: ok_def)
  have s: "snd (handleMem0Click_begin False True chat_html_block) = Awaiting residue_pending"
    by code_simp
  then have b: "handleMem0Click_begin False True chat_html_block = (?w1, Awaiting residue_pending)"
    by (simp add: prod_eq_iff)
  have e: "inputElement ?w1 =
      Some (Textarea [] (''hi'' @ ''\<newline>'' @ chatgpt_memoriesContent [''old'']))"
    by code_simp
  have m: "\<forall>m\<in>set [''new'']. indexOf m memoryPrefix = None"
    by (simp add: memoryPrefix_def)
  have z: "occurrences memoryPrefix ''hi'' = 0" by (simp add: memoryPrefix_def)
  show ?thesis
    using o s b e z block_count_after_cycle [OF o m, where html_text = "\<lambda>h. h"
      and w = ?w1
      and el = "Textarea [] (''hi'' @ ''\<newline>'' @ chatgpt_memoriesContent [''old''])"
      and rd = "JsonObject None (Some [''new''])" and popup = False and clickSendButton = True
      and ?w0.0 = chat_html_block and ?w1.0 = ?w1 and p = residue_pending
      and pw = "page (page_idle ''hi'' (Some ''k'') True)"
      and ta = "\<lparr>ta_value = ''hi'', focused = True\<rparr>" and q = hi_pending]
    by (simp add: chatgpt_memories_def page_memories_def page_idle_def found_def hi_pending_def)
qed

text \<open>
  C4 as stated fails on Perplexity, which does not strip: when the composed text is still
  in the textarea (here the submit button is missing, so the click never happens) and Enter
  is pressed again, the new content holds two blocks.
\<close>

theorem single_block_counterexample:
  "occurrences memoryPrefix (ta_value (the (textarea (page (perplexity_run
      (page_idle ''hi'' (Some ''k'') False)
      [KeyDown enter_event, PageSearchSettled 0 (found [''a'']),
       TimerFires,
       KeyDown enter_event, PageSearchSettled 0 (found [''a''])]))))) = 2"
  by code_simp

text \<open>
  C5, as amended. For a successful search that returns a non-empty list of memories, the
  content written to the input is a base text followed by one block: the separator, the
  preamble \<open>memoryPrefix\<close>, and one bullet \<open>- memory\<close> per memory in the order of the
  response.
  Perplexity and Grok join the bullets with line feeds; ChatGPT wraps the preamble and one
  \<^verbatim>\<open><div>\<close> per bullet in the \<^verbatim>\<open>mem0-wrapper\<close> element. The base text above the block is,
  on Perplexity and Grok, the text captured when Enter was pressed, which is the value of the
  textarea trimmed, whatever the textarea holds when the search settles. On ChatGPT it is
  \<^verbatim>\<open>currentContent\<close>: what the input element holds when the search settles, cut at the first
  marker phrase and the white space before it, trimmed, without a trailing ProseMirror
  paragraph and trimmed again. That is the content unmodified exactly when the content is
  trimmed, holds no marker phrase and does not end with the trailing paragraph.
\<close>

theorem compose_appends_block:
  assumes "ok status" "memories \<noteq> []"
  shows
   "(textarea pw0 = Some ta0 \<and> handleEnterKey event pw0 = (pw1, prevented, Awaiting q) \<and>
     textarea pw = Some ta \<and> page_memories rd = Some memories \<longrightarrow>
       textarea (perplexity_resume q (Response status (Some rd)) pw) =
         Some (ta\<lparr>ta_value := trim (ta_value ta0) @ ''\<newline>\<newline>'' @ memoryPrefix @ ''\<newline>'' @
           concat (map (\<lambda>m. ''- '' @ m @ ''\<newline>'') (butlast memories)) @ ''- '' @ last memories\<rparr>) \<and>
       textarea (grok_resume q (Response status (Some rd)) pw) =
         Some (ta\<lparr>ta_value := trim (ta_value ta0) @ ''\<newline>\<newline>'' @ memoryPrefix @ ''\<newline>'' @
           concat (map (\<lambda>m. ''- '' @ m @ ''\<newline>'') (butlast memories)) @ ''- '' @ last memories\<rparr>)) \<and>
    (inputElement w = Some el \<and> chatgpt_memories rd = memories \<longrightarrow>
       inputElement (fst (handleMem0Click_resume html_text p (Response status (Some rd)) w)) =
         Some (case el of
             Div h t \<Rightarrow>
               Div (chatgpt_currentContent h @ ''<div><br></div>'' @ mem0_wrapper @ ''<strong>'' @
                    memoryPrefix @ ''</strong>'' @
                    concat (map (\<lambda>m. ''<div>- '' @ m @ ''</div>'') memories) @ ''</div>'')
                   (html_text (chatgpt_currentContent h @ ''<div><br></div>'' @ mem0_wrapper @
                    ''<strong>'' @ memoryPrefix @ ''</strong>'' @
                    concat (map (\<lambda>m. ''<div>- '' @ m @ ''</div>'') memories) @ ''</div>''))
           | Textarea t v \<Rightarrow>
               Textarea t (chatgpt_currentContent v @ ''\<newline>'' @ mem0_wrapper @ ''<strong>'' @
                    memoryPrefix @ ''</strong>'' @
                    concat (map (\<lambda>m. ''<div>- '' @ m @ ''</div>'') memories) @ ''</div>''))) \<and>
    (chatgpt_currentContent c = c \<longleftrightarrow>
       trim c = c \<and> indexOf c memoryPrefix = None \<and> \<not> suffix lastParagraph c)"
proof (intro conjI impI)
  assume a: "textarea pw0 = Some ta0 \<and> handleEnterKey event pw0 = (pw1, prevented, Awaiting q) \<and>
     textarea pw = Some ta \<and> page_memories rd = Some memories"
  then have q: "q_message q = trim (ta_value ta0)" "q_capturedText q = trim (ta_value ta0)"
    using handleEnterKey_captures [of pw0 ta0 event pw1 prevented q] by simp_all
  show "textarea (perplexity_resume q (Response status (Some rd)) pw) =
         Some (ta\<lparr>ta_value := trim (ta_value ta0) @ ''\<newline>\<newline>'' @ memoryPrefix @ ''\<newline>'' @
           concat (map (\<lambda>m. ''- '' @ m @ ''\<newline>'') (butlast memories)) @ ''- '' @ last memories\<rparr>)"
    using a assms q(1)
    by (simp add: perplexity_resume_def Let_def plain_memoriesContent_closed)
  show "textarea (grok_resume q (Response status (Some rd)) pw) =
         Some (ta\<lparr>ta_value := trim (ta_value ta0) @ ''\<newline>\<newline>'' @ memoryPrefix @ ''\<newline>'' @
           concat (map (\<lambda>m. ''- '' @ m @ ''\<newline>'') (butlast memories)) @ ''- '' @ last memories\<rparr>)"
    using a assms q(2)
    by (simp add: grok_resume_def Let_def plain_memoriesContent_closed)
next
  assume a: "inputElement w = Some el \<and> chatgpt_memories rd = memories"
  then have "inputElement (fst (handleMem0Click_resume html_text p (Response status (Some rd)) w)) =
           Some (injectMemories html_text el memories)"
    using assms resume_inputElement_memories [of status w el rd html_text p] by simp
  then show "inputElement (fst (handleMem0Click_resume html_text p (Response status (Some rd)) w)) =
         Some (case el of
             Div h t \<Rightarrow>
               Div (chatgpt_currentContent h @ ''<div><br></div>'' @ mem0_wrapper @ ''<strong>'' @
                    memoryPrefix @ ''</strong>'' @
                    concat (map (\<lambda>m. ''<div>- '' @ m @ ''</div>'') memories) @ ''</div>'')
                   (html_text (chatgpt_currentContent h @ ''<div><br></div>'' @ mem0_wrapper @
                    ''<strong>'' @ memoryPrefix @ ''</strong>'' @
                    concat (map (\<lambda>m. ''<div>- '' @ m @ ''</div>'') memories) @ ''</div>''))
           | Textarea t v \<Rightarrow>
               Textarea t (chatgpt_currentContent v @ ''\<newline>'' @ mem0_wrapper @ ''<strong>'' @
                    memoryPrefix @ ''</strong>'' @
                    concat (map (\<lambda>m. ''<div>- '' @ m @ ''</div>'') memories) @ ''</div>''))"
    by (simp add: injectMemories_def chatgpt_memoriesContent_closed Let_def split: input_element.splits)
next
  show "chatgpt_currentContent c = c \<longleftrightarrow>
       trim c = c \<and> indexOf c memoryPrefix = None \<and> \<not> suffix lastParagraph c"
    by (rule chatgpt_currentContent_fixed)
qed

text \<open>
  The scenario of the specification: Enter on \<open>I love Python\<close> and a search that returns
  the one memory \<open>Loves FastAPI\<close> give the sentence and one block with the single bullet
  \<open>- Loves FastAPI\<close>.
\<close>

theorem compose_appends_block_witness:
  "ok 200 \<and> [''Loves FastAPI''] \<noteq> [] \<and>
   snd (handleEnterKey enter_event (page (page_idle ''I love Python'' (Some ''k'') True))) =
     (True, Awaiting (hi_pending\<lparr>q_capturedText := ''I love Python'', q_message := ''I love Python''\<rparr>)) \<and>
   textarea (perplexity_resume
       (hi_pending\<lparr>q_capturedText := ''I love Python'', q_message := ''I love Python''\<rparr>)
       (found [''Loves FastAPI''])
       (fst (handleEnterKey enter_event (page (page_idle ''I love Python'' (Some ''k'') True))))) =
     Some \<lparr>ta_value = ''I love Python'' @ ''\<newline>\<newline>'' @ memoryPrefix @ ''\<newline>- Loves FastAPI'',
           focused = True\<rparr> \<and>
   textarea (grok_resume
       (hi_pending\<lparr>q_capturedText := ''I love Python'', q_message := ''I love Python''\<rparr>)
       (found [''Loves FastAPI''])
       (fst (handleEnterKey enter_event (page (page_idle ''I love Python'' (Some ''k'') True))))) =
     Some \<lparr>ta_value = ''I love Python'' @ ''\<newline>\<newline>'' @ memoryPrefix @ ''\<newline>- Loves FastAPI'',
           focused = True\<rparr> \<and>
   inputElement (fst (handleMem0Click_resume (\<lambda>h. h) hi_chat_pending (found [''Loves FastAPI''])
       (world (chatgpt_idle (Some (Textarea [] ''I love Python'')))))) =
     Some (Textarea [] (''I love Python'' @ ''\<newline>'' @ mem0_wrapper @ ''<strong>'' @ memoryPrefix @
       ''</strong><div>- Loves FastAPI</div></div>'')) \<and>
   trim ''I love Python'' = ''I love Python'' \<and> indexOf ''I love Python'' memoryPrefix = None \<and>
   \<not> suffix lastParagraph ''I love Python'' \<and>
   chatgpt_currentContent ''I love Python'' = ''I love Python''"
proof -
  let ?pw0 = "page (page_idle ''I love Python'' (Some ''k'') True)"
  let ?pw1 = "fst (handleEnterKey enter_event ?pw0)"
  let ?q = "hi_pending\<lparr>q_capturedText := ''I love Python'', q_message := ''I love Python''\<rparr>"
  let ?ta = "\<lparr>ta_value = ''I love Python'', focused = True\<rparr>"
  let ?rd = "JsonObject None (Some [''Loves FastAPI''])"
  let ?w = "world (chatgpt_idle (Some (Textarea [] ''I love Python'')))"
  have o: "ok 200" by (simp add: ok_def)
  have n: "[''Loves FastAPI''] \<noteq> []" by simp
  have t: "trim ''I love Python'' = ''I love Python''" by code_simp
  have i: "indexOf ''I love Python'' memoryPrefix = None" by code_simp
  have s: "\<not> suffix lastParagraph ''I love Python''" by code_simp
  have e: "snd (handleEnterKey enter_event ?pw0) = (True, Awaiting ?q)" by code_simp
  then have e': "handleEnterKey enter_event ?pw0 = (?pw1, True, Awaiting ?q)"
    by (simp add: prod_eq_iff)
  have t0: "textarea ?pw0 = Some ?ta" by (simp add: page_idle_def)
  have t1: "textarea ?pw1 = Some ?ta" by code_simp
  have pm: "page_memories ?rd = Some [''Loves FastAPI'']" by (simp add: page_memories_def)
  have w: "inputElement ?w = Some (Textarea [] ''I love Python'')" by (simp add: chatgpt_idle_def)
  have cm: "chatgpt_memories ?rd = [''Loves FastAPI'']" by (simp add: chatgpt_memories_def)
  note T = compose_appends_block [OF o n, where ?pw0.0 = ?pw0 and ?ta0.0 = ?ta
      and event = enter_event and ?pw1.0 = ?pw1 and prevented = True and q = ?q
      and pw = ?pw1 and ta = ?ta and rd = ?rd and w = ?w and el = "Textarea [] ''I love Python''"
      and html_text = "\<lambda>h. h" and p = hi_chat_pending and c = "''I love Python''"]
  have c1: "textarea (perplexity_resume ?q (found [''Loves FastAPI'']) ?pw1) =
     Some \<lparr>ta_value = ''I love Python'' @ ''\<newline>\<newline>'' @ memoryPrefix @ ''\<newline>- Loves FastAPI'',
           focused = True\<rparr>"
    using T e' t0 t1 pm t by (simp add: found_def)
  have c2: "textarea (grok_resume ?q (found [''Loves FastAPI'']) ?pw1) =
     Some \<lparr>ta_value = ''I love Python'' @ ''\<newline>\<newline>'' @ memoryPrefix @ ''\<newline>- Loves FastAPI'',
           focused = True\<rparr>"
    using T e' t0 t1 pm t by (simp add: found_def)
  have c3: "inputElement (fst (handleMem0Click_resume (\<lambda>h. h) hi_chat_pending
       (found [''Loves FastAPI'']) ?w)) =
     Some (Textarea [] (''I love Python'' @ ''\<newline>'' @ mem0_wrapper @ ''<strong>'' @ memoryPrefix @
       ''</strong><div>- Loves FastAPI</div></div>''))"
  proof -
    have cc: "chatgpt_currentContent ''I love Python'' = ''I love Python''"
      using T t i s by blast
    show ?thesis using T w cm cc by (simp add: found_def)
  qed
  have c4: "chatgpt_currentContent ''I love Python'' = ''I love Python''"
    using T t i s by blast
  show ?thesis using o n e c1 c2 c3 t i s c4 by blast
qed

text \<open>
  C5 as stated fails: the message above the block is not always the original. A ChatGPT
  draft with spaces around \<open>hi\<close> is written back as \<open>hi\<close> and the block; a draft that quotes
  the marker phrase loses the phrase and everything after it; Perplexity and Grok put the
  trimmed text above the block.
\<close>

theorem original_above_block_counterexample:
  "inputElement (world (chatgpt_run (\<lambda>h. h) (chatgpt_idle (Some (Textarea [] ''  hi  '')))
      [EnterKey False, SearchSettled 0 (found [''m''])])) =
     Some (Textarea [] (''hi'' @ ''\<newline>'' @ chatgpt_memoriesContent [''m''])) \<and>
   inputElement (world (chatgpt_run (\<lambda>h. h)
      (chatgpt_idle (Some (Textarea [] (''see '' @ memoryPrefix @ '' why''))))
      [EnterKey False, SearchSettled 0 (found [''m''])])) =
     Some (Textarea [] (''see'' @ ''\<newline>'' @ chatgpt_memoriesContent [''m''])) \<and>
   map_option ta_value (textarea (page (perplexity_run (page_idle ''  hi  '' (Some ''k'') True)
      [KeyDown enter_event, PageSearchSettled 0 (found [''m''])]))) =
     Some (''hi'' @ plain_memoriesContent [''m'']) \<and>
   map_option ta_value (textarea (page (grok_run (page_idle ''  hi  '' (Some ''k'') True)
      [KeyDown enter_event, PageSearchSettled 0 (found [''m''])]))) =
     Some (''hi'' @ plain_memoriesContent [''m''])"
  by code_simp

text \<open>
  C6, as amended. For a successful search that returns no memories: ChatGPT writes the
  message of the cycle into the input element, and that message is the strip of what the
  input held when the cycle began and holds no marker phrase; Perplexity writes the
  captured message into the textarea; Grok leaves the textarea as it is. No script adds a
  block.
\<close>

theorem empty_memories_restore:
  assumes "ok status"
  shows
   "(inputElement w = Some el \<and> chatgpt_memories rd = [] \<longrightarrow>
       inputElement (fst (handleMem0Click_resume html_text p (Response status (Some rd)) w)) =
         Some (case el of
                 Div h t \<Rightarrow> Div (p_message p) (html_text (p_message p))
               | Textarea t v \<Rightarrow> Textarea t (p_message p))) \<and>
    (handleMem0Click_begin popup clickSendButton w0 = (w1, Awaiting p) \<longrightarrow>
       p_message p = chatgpt_message (the (getInputValue w0)) \<and>
       occurrences memoryPrefix (p_message p) = 0) \<and>
    (textarea pw = Some ta \<and> page_memories rd = Some [] \<longrightarrow>
       textarea (perplexity_resume q (Response status (Some rd)) pw) =
         Some (ta\<lparr>ta_value := q_message q\<rparr>) \<and>
       textarea (grok_resume q (Response status (Some rd)) pw) = Some ta)"
proof (intro conjI impI)
  assume "inputElement w = Some el \<and> chatgpt_memories rd = []"
  then show "inputElement (fst (handleMem0Click_resume html_text p (Response status (Some rd)) w)) =
         Some (case el of
                 Div h t \<Rightarrow> Div (p_message p) (html_text (p_message p))
               | Textarea t v \<Rightarrow> Textarea t (p_message p))"
    using assms resume_inputElement_empty [of status w el rd html_text p]
    by (simp add: restoreMessage_def split: input_element.splits)
next
  assume b: "handleMem0Click_begin popup clickSendButton w0 = (w1, Awaiting p)"
  then show "p_message p = chatgpt_message (the (getInputValue w0))"
    by (rule begin_message_clean(1))
  from b show "occurrences memoryPrefix (p_message p) = 0"
    by (rule begin_message_clean(2))
next
  assume a: "textarea pw = Some ta \<and> page_memories rd = Some []"
  show "textarea (perplexity_resume q (Response status (Some rd)) pw) =
         Some (ta\<lparr>ta_value := q_message q\<rparr>)"
    using a assms by (simp add: perplexity_resume_def Let_def)
  show "textarea (grok_resume q (Response status (Some rd)) pw) = Some ta"
    using a assms by (simp add: grok_resume_def Let_def)
qed

text \<open>
  A search that returns no memories: ChatGPT puts \<open>hi\<close> in place of a draft that held
  a block; Perplexity puts the captured \<open>hi\<close> in place of the untrimmed text; Grok leaves
  the untrimmed text.
\<close>

theorem empty_memories_restore_witness:
  "ok 200 \<and>
   snd (handleMem0Click_begin False True chat_plain_block) = Awaiting hi_chat_pending \<and>
   chatgpt_message (the (getInputValue chat_plain_block)) = ''hi'' \<and>
   occurrences memoryPrefix ''hi'' = 0 \<and>
   inputElement (fst (handleMem0Click_resume (\<lambda>h. h) hi_chat_pending (found [])
       (fst (handleMem0Click_begin False True chat_plain_block)))) = Some (Textarea [] ''hi'') \<and>
   textarea (perplexity_resume hi_pending (found []) (page (page_idle ''hi '' (Some ''k'') True))) =
     Some \<lparr>ta_value = ''hi'', focused = True\<rparr> \<and>
   textarea (grok_resume hi_pending (found []) (page (page_idle ''hi '' (Some ''k'') True))) =
     Some \<lparr>ta_value = ''hi '', focused = True\<rparr>"
proof -
  let ?w1 = "fst (handleMem0Click_begin False True chat_plain_block)"
  have o: "ok 200" by (simp add: ok_def)
  have s: "snd (handleMem0Click_begin False True chat_plain_block) = Awaiting hi_chat_pending"
    by code_simp
  then have b: "handleMem0Click_begin False True chat_plain_block = (?w1, Awaiting hi_chat_pending)"
    by (simp add: prod_eq_iff)
  have e: "inputElement ?w1 = Some (Textarea [] (''hi'' @ plain_memoriesContent [''old'']))"
    by code_simp
  have h: "p_message hi_chat_pending = ''hi''" by (simp add: hi_chat_pending_def)
  show ?thesis
    using o s b e h empty_memories_restore [OF o,
      where w = ?w1 and el = "Textarea [] (''hi'' @ plain_memoriesContent [''old''])"
      and rd = "JsonObject None (Some [])"
      and html_text = "\<lambda>h. h" and p = hi_chat_pending and popup = False and clickSendButton = True
      and ?w0.0 = chat_plain_block and ?w1.0 = ?w1
      and pw = "page (page_idle ''hi '' (Some ''k'') True)"
      and ta = "\<lparr>ta_value = ''hi '', focused = True\<rparr>" and q = hi_pending]
    by (simp add: page_idle_def page_memories_def chatgpt_memories_def found_def hi_pending_def
        memoryPrefix_def)
qed

text \<open>
  C6 as stated fails on Grok and on Perplexity: a textarea that holds \<open>hi\<close> and a block
  still holds the block after a cycle whose search returned no memories, so its content is
  not the stripped original \<open>hi\<close>.
\<close>

theorem empty_memories_counterexample:
  "ta_value (the (textarea (page (grok_run
       (page_idle (''hi'' @ plain_memoriesContent [''old'']) (Some ''k'') False)
       [KeyDown enter_event, PageSearchSettled 0 (found [])]))))
     = ''hi'' @ plain_memoriesContent [''old''] \<and>
   ta_value (the (textarea (page (perplexity_run
       (page_idle (''hi'' @ plain_memoriesContent [''old'']) (Some ''k'') False)
       [KeyDown enter_event, PageSearchSettled 0 (found [])]))))
     = ''hi'' @ plain_memoriesContent [''old''] \<and>
   grok_lastInputValue (''hi'' @ plain_memoriesContent [''old'']) = ''hi'' \<and>
   chatgpt_message (''hi'' @ plain_memoriesContent [''old'']) = ''hi'' \<and>
   ''hi'' @ plain_memoriesContent [''old''] \<noteq> ''hi'' \<and>
   occurrences memoryPrefix (''hi'' @ plain_memoriesContent [''old'']) = 1"
  by code_simp




text \<open>
  C8, as amended. When the input is empty, \<^verbatim>\<open>handleMem0Click\<close> of ChatGPT returns without a
  search request, an add request or a click, leaves the input and the flag as they are and
  logs an error; the notice is shown exactly when a popup element was passed, which only
  a click on the Mem0 button does. On Perplexity and Grok an Enter on a textarea whose
  trimmed text is empty is not intercepted at all, and \<^verbatim>\<open>handleMem0Processing\<close> on an empty
  message only logs an error.
\<close>

theorem empty_input_aborts:
  "(getInputValue w = None \<or> getInputValue w = Some [] \<longrightarrow>
      (let w' = fst (handleMem0Click_begin popup clickSendButton w) in
       snd (handleMem0Click_begin popup clickSendButton w) = Returned \<and>
       searchCalls w' = searchCalls w \<and> addCalls w' = addCalls w \<and>
       sendClicks w' = sendClicks w \<and> inputElement w' = inputElement w \<and>
       isProcessingMem0 w' = isProcessingMem0 w \<and>
       consoleErrors w' = consoleErrors w @ [''No input message found''] \<and>
       popups w' = (if popup then popups w @ [''No input message found''] else popups w))) \<and>
   (textarea pw = Some ta \<and> trim (ta_value ta) = [] \<longrightarrow>
      handleEnterKey event pw = (pw, False, Returned) \<and>
      handleMem0Processing_begin [] clickSendButton pw =
        (pw\<lparr>page_consoleErrors := page_consoleErrors pw @ [''No input message found'']\<rparr>, Returned))"
  by (auto simp: handleMem0Click_begin_def getMemoryEnabledState_def Let_def
      handleEnterKey_def handleMem0Processing_begin_def page_console_error_def)

text \<open>
  An empty ChatGPT textarea and a click on the Mem0 button: the notice is shown and no
  search is sent. A Perplexity textarea holding two spaces: Enter is left to the page.
\<close>

theorem empty_input_aborts_witness:
  "(let w' = fst (handleMem0Click_begin True False (world (chatgpt_idle (Some (Textarea [] [])))))
    in searchCalls w' = [] \<and> popups w' = [''No input message found'']) \<and>
   handleEnterKey enter_event (page (page_idle ''  '' None True)) = (page (page_idle ''  '' None True), False, Returned)"
  using empty_input_aborts [where w = "world (chatgpt_idle (Some (Textarea [] [])))"
      and popup = True and clickSendButton = False and pw = "page (page_idle ''  '' None True)"
      and ta = "\<lparr>ta_value = ''  '', focused = True\<rparr>" and event = enter_event]
  by (simp add: chatgpt_idle_def page_idle_def getInputValue_def trim_def isJsSpace_def Let_def)

text \<open>
  C8 as stated fails: an Enter (or Ctrl+M) on an empty ChatGPT input aborts without any
  notice, since these captures pass no popup element.
\<close>

theorem empty_input_notice_counterexample:
  "popups (world (chatgpt_step (\<lambda>h. h) (chatgpt_idle (Some (Textarea [] []))) (EnterKey False))) = [] \<and>
   pending (chatgpt_step (\<lambda>h. h) (chatgpt_idle (Some (Textarea [] []))) (EnterKey False)) = [] \<and>
   popups (world (chatgpt_step (\<lambda>h. h) (chatgpt_idle (Some (Textarea [] []))) CtrlM)) = []"
  by (simp add: chatgpt_idle_def chatgpt_capture_def handleMem0Click_begin_def
      getMemoryEnabledState_def getInputValue_def caller_catch_def Let_def
      setButtonLoadingState_def showPopup_def console_error_def)

text \<open>
  C9. Strip is idempotent: applying the marker-based strip twice gives the same result as
  applying it once, for the regular-expression truncation of ChatGPT (\<open>chatgpt_message\<close>:
  replace, trim and the cut after the first \<^verbatim>\<open></p>\<close>) and for the fixed-prefix
  \<^verbatim>\<open>indexOf\<close> form of Grok (\<open>grok_lastInputValue\<close>).
\<close>

theorem strip_idempotent:
  "chatgpt_message (chatgpt_message c) = chatgpt_message c \<and>
   grok_lastInputValue (grok_lastInputValue c) = grok_lastInputValue c"
  using chatgpt_message_idem grok_lastInputValue_idem by simp

text \<open>
  C10. Perplexity and Grok: when Enter (without Shift, not composing) is pressed on the
  focused textarea, its trimmed text is not empty and the storage holds neither an API key
  nor an access token, the event is prevented and the handler returns: nothing is left
  pending, and the page differs from before only by the one console error. So no search or
  add request is sent, no timer is set to click the submit button, and the textarea keeps
  its text.
\<close>

theorem no_credentials_enter:
  assumes "key event = ''Enter''" "\<not> shiftKey event" "\<not> isComposing event"
    and "textarea w = Some ta" "focused ta" "trim (ta_value ta) \<noteq> []"
    and "\<not> truthy (apiKey (storage w))" "\<not> truthy (access_token (storage w))"
  shows "handleEnterKey event w =
           (w\<lparr>page_consoleErrors := page_consoleErrors w @ [''No API Key or Access Token found'']\<rparr>,
            True, Returned)"
  using assms
  by (simp add: handleEnterKey_def handleMem0Processing_begin_def page_console_error_def Let_def)

text \<open>
  Enter on a textarea holding \<open>hello\<close> with empty storage.
\<close>

theorem no_credentials_enter_witness:
  "handleEnterKey enter_event (page (page_idle ''hello'' None True)) =
     ((page (page_idle ''hello'' None True))
        \<lparr>page_consoleErrors := [''No API Key or Access Token found'']\<rparr>, True, Returned)
   \<and> page_searchCalls (fst (handleEnterKey enter_event (page (page_idle ''hello'' None True)))) = []
   \<and> clickTimers (fst (handleEnterKey enter_event (page (page_idle ''hello'' None True)))) = 0
   \<and> textarea (fst (handleEnterKey enter_event (page (page_idle ''hello'' None True))))
       = Some \<lparr>ta_value = ''hello'', focused = True\<rparr>"
proof -
  have t: "trim ''hello'' \<noteq> []" by (simp add: trim_def isJsSpace_def)
  have "handleEnterKey enter_event (page (page_idle ''hello'' None True)) =
     ((page (page_idle ''hello'' None True))
        \<lparr>page_consoleErrors := page_consoleErrors (page (page_idle ''hello'' None True)) @
            [''No API Key or Access Token found'']\<rparr>, True, Returned)"
    by (rule no_credentials_enter [where ta = "\<lparr>ta_value = ''hello'', focused = True\<rparr>"])
       (simp_all add: enter_event_def page_idle_def truthy_def t)
  then show ?thesis by (simp add: page_idle_def)
qed

end
